theory Spec2Isabelle
  imports Main
begin

section \<open>The repository pool of lib/repository_pool.c\<close>

text \<open>
  The pool is process-wide state: the queue \<open>rpool_queue\<close> of registered repositories,
  the flag \<open>repolist_initialized\<close>, and the array of configured repository URIs that
  the handle \<open>xhp\<close> holds. Every function of the file is embedded as a function that
  takes this state and returns the new one. What the file calls but does not define
  (proplib, libc, the index helpers) is a parameter of the model: a record of
  collaborators, each a function of an abstract world \<open>'w\<close> that it may change, so that
  one collaborator can answer differently on every call.
\<close>

subsection \<open>Constants of errno.h\<close>

type_synonym errno = int

text \<open>The values are those of Linux; the proofs use only that they differ and are not 0.\<close>

definition ENOENT :: errno where
  "ENOENT = 2"

definition ENOTSUP :: errno where
  "ENOTSUP = 95"

subsection \<open>Data\<close>

type_synonym addr = nat

text \<open>\<open>struct repository_pool_index\<close>: the URI and the internalized index dictionary.\<close>

record 'd repository_pool_index =
  rpi_uri :: string
  rpi_repod :: 'd

text \<open>
  \<open>struct repository_pool\<close>, a node of the queue. \<open>rp_addr\<close> is the address \<open>malloc\<close>
  gave the node: it is what a pointer to the node compares equal on.
\<close>

record 'd repository_pool =
  rp_addr :: addr
  rpi :: "'d repository_pool_index"

text \<open>
  The proplib array behind \<open>xhp->repos_array\<close>: its strings and its reference count.
  \<open>prop_object_release\<close> drops one reference and destroys the object with the last
  one; the pointer that the handle keeps is not changed by that. A count of 0 stands
  for a destroyed object that the handle still points to.
\<close>

record prop_array =
  pa_refcnt :: nat
  pa_strings :: "string list"

text \<open>
  The state: the static queue, the static flag, and the handle's field
  (\<open>None\<close> is the NULL pointer).
\<close>

record 'd pool =
  rpool_queue :: "'d repository_pool list"
  repolist_initialized :: bool
  repos_array :: "prop_array option"

text \<open>
  The collaborators. A call that can fail returns \<open>Inl e\<close>, where \<open>e\<close> is the value the
  caller reads from \<open>errno\<close> after the failure, or \<open>Inr\<close> the result.
  \<open>un_machine\<close> is the \<open>machine\<close> field that \<open>uname\<close> fills in.
\<close>

record ('w, 'd) collaborators =
  un_machine :: string
  prop_array_iterator :: "'w \<Rightarrow> (errno + unit) \<times> 'w"
  xbps_pkg_index_plist :: "string \<Rightarrow> 'w \<Rightarrow> (errno + string) \<times> 'w"
  access_R_OK :: "string \<Rightarrow> 'w \<Rightarrow> bool \<times> 'w"
  xbps_repository_sync_pkg_index :: "string \<Rightarrow> 'w \<Rightarrow> int \<times> 'w"
  malloc :: "'w \<Rightarrow> (errno + addr) \<times> 'w"
  prop_string_cstring :: "string \<Rightarrow> 'w \<Rightarrow> (errno + unit) \<times> 'w"
  prop_dictionary_internalize_from_zfile :: "string \<Rightarrow> 'w \<Rightarrow> (errno + 'd) \<times> 'w"

subsection \<open>The queue macros\<close>

text \<open>
  The \<open>SIMPLEQ\<close> macros of queue.h are not in the source file. The queue is modelled as
  the list of its nodes, head first; a pointer to a node is the node's address.
\<close>

text \<open>
  Modelled from the spec: \<open>SIMPLEQ_FIRST\<close> is missing. The Registry is "an ordered
  sequence of Repository Entries"; the first is its head, NULL when it is empty.
\<close>

definition SIMPLEQ_FIRST :: "'d repository_pool list \<Rightarrow> 'd repository_pool option" where
  "SIMPLEQ_FIRST q = (case q of [] \<Rightarrow> None | r # _ \<Rightarrow> Some r)"

text \<open>
  Modelled from the spec: \<open>SIMPLEQ_INSERT_TAIL\<close> is missing. "Append the fully
  constructed entry to the tail of the Registry (preserves configured ordering)."
\<close>

definition SIMPLEQ_INSERT_TAIL ::
  "'d repository_pool list \<Rightarrow> 'd repository_pool \<Rightarrow> 'd repository_pool list" where
  "SIMPLEQ_INSERT_TAIL q r = q @ [r]"

text \<open>
  Modelled from the spec: \<open>SIMPLEQ_REMOVE\<close> is missing. Release does "repeatedly remove
  the head entry of the Registry", and a callback may be "removing the current entry from
  the Registry". The macro unlinks the node at address \<open>a\<close> (the first one, should two
  nodes share it) and leaves the others in their order.
\<close>

fun SIMPLEQ_REMOVE :: "'d repository_pool list \<Rightarrow> addr \<Rightarrow> 'd repository_pool list" where
  "SIMPLEQ_REMOVE [] a = []"
| "SIMPLEQ_REMOVE (r # rs) a = (if rp_addr r = a then rs else r # SIMPLEQ_REMOVE rs a)"

text \<open>
  Reading through a pointer: the node at address \<open>a\<close>, if it is linked in the queue
  (a node that was unlinked is freed, and reading it has no defined result).
\<close>

fun node_at :: "'d repository_pool list \<Rightarrow> addr \<Rightarrow> 'd repository_pool option" where
  "node_at [] a = None"
| "node_at (r # rs) a = (if rp_addr r = a then Some r else node_at rs a)"

text \<open>The \<open>sqe_next\<close> pointer of the node at \<open>a\<close>: the address of its successor, or NULL.\<close>

fun sqe_next :: "'d repository_pool list \<Rightarrow> addr \<Rightarrow> addr option" where
  "sqe_next [] a = None"
| "sqe_next (r # rs) a =
     (if rp_addr r = a then map_option rp_addr (SIMPLEQ_FIRST rs) else sqe_next rs a)"

subsection \<open>sync_remote_repo and check_repo_arch\<close>

definition sync_remote_repo ::
  "('w, 'd) collaborators \<Rightarrow> string \<Rightarrow> string \<Rightarrow> 'w \<Rightarrow> int \<times> 'w" where
  "sync_remote_repo env plist repourl w =
     (case access_R_OK env plist w of
        (True, w1) \<Rightarrow> (0, w1)
      | (False, w1) \<Rightarrow>
          (case xbps_repository_sync_pkg_index env repourl w1 of
             (r, w2) \<Rightarrow> if r = - 1 then (- 1, w2) else (0, w2)))"

text \<open>
  \<open>strrchr\<close> of libc: the part of the string from the last occurrence of \<open>c\<close> on,
  \<open>None\<close> (NULL) when \<open>c\<close> does not occur.
\<close>

fun strrchr :: "string \<Rightarrow> char \<Rightarrow> string option" where
  "strrchr [] c = None"
| "strrchr (x # xs) c =
     (case strrchr xs c of
        Some p \<Rightarrow> Some p
      | None \<Rightarrow> if x = c then Some (x # xs) else None)"

definition check_repo_arch :: "string \<Rightarrow> string \<Rightarrow> bool" where
  "check_repo_arch machine uri =
     (case strrchr uri (CHR ''/'') of
        None \<Rightarrow> False
      | Some p \<Rightarrow>
          (let p' = tl p in
           if p' = [] then False
           else if p' = ''noarch'' then True
           else if p' = machine then True
           else False))"

subsection \<open>xbps_repository_pool_release\<close>

text \<open>The loop of release: unlink the first node until the queue has none.\<close>

function release_loop :: "'d repository_pool list \<Rightarrow> 'd repository_pool list" where
  "release_loop q =
     (case SIMPLEQ_FIRST q of
        None \<Rightarrow> q
      | Some rpool \<Rightarrow> release_loop (SIMPLEQ_REMOVE q (rp_addr rpool)))"
  by pat_completeness auto
termination
  by (relation "measure length") (auto simp: SIMPLEQ_FIRST_def split: list.splits)

definition xbps_repository_pool_release :: "'d pool \<Rightarrow> 'd pool" where
  "xbps_repository_pool_release s =
     (if \<not> repolist_initialized s then s
      else s\<lparr>rpool_queue := release_loop (rpool_queue s), repolist_initialized := False\<rparr>)"

subsection \<open>xbps_repository_pool_init\<close>

text \<open>The locals of one call that the loop changes, and the world.\<close>

record ('w, 'd) locals =
  queue :: "'d repository_pool list"
  ntotal :: nat
  nmissing :: nat
  world :: 'w

text \<open>
  How one pass of the loop body ends: it reaches the end of the body or a \<open>continue\<close>
  (\<open>Next\<close>), or it jumps to the label \<open>out\<close> with \<open>rv\<close> set (\<open>Goto_out\<close>).
\<close>

datatype ('w, 'd) flow =
  Next "('w, 'd) locals"
| Goto_out int "('w, 'd) locals"

text \<open>The \<open>SIMPLEQ_FOREACH\<close> that looks for a registered node with the same URI.\<close>

fun duprepo :: "'d repository_pool list \<Rightarrow> string \<Rightarrow> bool" where
  "duprepo [] repouri = False"
| "duprepo (rpool # rest) repouri =
     (if rpi_uri (rpi rpool) = repouri then True else duprepo rest repouri)"

text \<open>
  The body of the \<open>while\<close> loop for one string of the array (lines 120 to 207). The
  counters are \<open>size_t\<close>; they count strings of one array and cannot wrap.
\<close>

definition pool_step ::
  "('w, 'd) collaborators \<Rightarrow> string \<Rightarrow> ('w, 'd) locals \<Rightarrow> ('w, 'd) flow" where
  "pool_step env repouri st =
     (if duprepo (queue st) repouri then Next st
      else
        let st1 = st\<lparr>ntotal := ntotal st + 1\<rparr> in
        if \<not> check_repo_arch (un_machine env) repouri
        then Next (st1\<lparr>nmissing := nmissing st1 + 1\<rparr>)
        else
          (case xbps_pkg_index_plist env repouri (world st1) of
             (Inl e, w1) \<Rightarrow> Goto_out e (st1\<lparr>world := w1\<rparr>)
           | (Inr plist, w1) \<Rightarrow>
               (case sync_remote_repo env plist repouri w1 of
                  (r, w2) \<Rightarrow>
                    if r = - 1 then Next (st1\<lparr>nmissing := nmissing st1 + 1, world := w2\<rparr>)
                    else
                      (case malloc env w2 of
                         (Inl e, w3) \<Rightarrow> Goto_out e (st1\<lparr>world := w3\<rparr>)
                       | (Inr a, w3) \<Rightarrow>
                           (case malloc env w3 of
                              (Inl e, w4) \<Rightarrow> Goto_out e (st1\<lparr>world := w4\<rparr>)
                            | (Inr b, w4) \<Rightarrow>
                                (case prop_string_cstring env repouri w4 of
                                   (Inl e, w5) \<Rightarrow> Goto_out e (st1\<lparr>world := w5\<rparr>)
                                 | (Inr u, w5) \<Rightarrow>
                                     (case prop_dictionary_internalize_from_zfile env plist w5 of
                                        (Inl e, w6) \<Rightarrow>
                                          if e = ENOENT
                                          then Next (st1\<lparr>nmissing := nmissing st1 + 1,
                                                        world := w6\<rparr>)
                                          else Goto_out e (st1\<lparr>world := w6\<rparr>)
                                      | (Inr d, w6) \<Rightarrow>
                                          Next (st1\<lparr>queue :=
                                                  SIMPLEQ_INSERT_TAIL (queue st1)
                                                    \<lparr>rp_addr = a,
                                                     rpi = \<lparr>rpi_uri = repouri,
                                                            rpi_repod = d\<rparr>\<rparr>,
                                                world := w6\<rparr>))))))))"

text \<open>The \<open>while\<close> loop over the strings the iterator yields.\<close>

fun pool_loop ::
  "('w, 'd) collaborators \<Rightarrow> string list \<Rightarrow> ('w, 'd) locals \<Rightarrow> ('w, 'd) flow" where
  "pool_loop env [] st = Next st"
| "pool_loop env (repouri # rest) st =
     (case pool_step env repouri st of
        Next st' \<Rightarrow> pool_loop env rest st'
      | Goto_out rv st' \<Rightarrow> Goto_out rv st')"

text \<open>The code from the label \<open>out\<close> on: release the pool when \<open>rv\<close> is not 0.\<close>

definition pool_out :: "int \<Rightarrow> 'd pool \<Rightarrow> 'w \<Rightarrow> int \<times> 'd pool \<times> 'w" where
  "pool_out rv s w = (if rv \<noteq> 0 then (rv, xbps_repository_pool_release s, w) else (rv, s, w))"

text \<open>
  The function (lines 91 to 227); \<open>free\<close> and the debug output change nothing of the
  model's state. \<open>None\<close> is the one case the model gives no result for: the call reads
  (\<open>prop_array_count\<close>) an array that was destroyed with its last reference.
\<close>

definition xbps_repository_pool_init ::
  "('w, 'd) collaborators \<Rightarrow> 'd pool \<Rightarrow> 'w \<Rightarrow> (int \<times> 'd pool \<times> 'w) option" where
  "xbps_repository_pool_init env s w =
     (case repos_array s of
        None \<Rightarrow> Some (ENOTSUP, s, w)
      | Some arr \<Rightarrow>
          if repolist_initialized s then Some (0, s, w)
          else if pa_refcnt arr = 0 then None
          else if length (pa_strings arr) = 0 then Some (ENOTSUP, s, w)
          else
            (case prop_array_iterator env w of
               (Inl e, w1) \<Rightarrow> Some (pool_out e s w1)
             | (Inr iter, w1) \<Rightarrow>
                 (case pool_loop env (pa_strings arr)
                         \<lparr>queue = rpool_queue s, ntotal = 0, nmissing = 0, world = w1\<rparr> of
                    Goto_out rv st \<Rightarrow>
                      Some (pool_out rv (s\<lparr>rpool_queue := queue st\<rparr>) (world st))
                  | Next st \<Rightarrow>
                      if ntotal st - nmissing st = 0
                      then Some (pool_out ENOTSUP (s\<lparr>rpool_queue := queue st\<rparr>) (world st))
                      else
                        Some (pool_out 0
                          (s\<lparr>rpool_queue := queue st,
                             repolist_initialized := True,
                             repos_array := Some (arr\<lparr>pa_refcnt := pa_refcnt arr - 1\<rparr>)\<rparr>)
                          (world st)))))"

subsection \<open>xbps_repository_pool_foreach\<close>

text \<open>
  The callback gets the node's index (the model hands it the node: its address stands
  for the pointer \<open>rpool->rpi\<close>), its own argument, and the pool, which it may change;
  it returns its status, the flag \<open>done\<close>, its argument and the pool.
\<close>

type_synonym ('a, 'd) callback =
  "'d repository_pool \<Rightarrow> 'a \<Rightarrow> 'd pool \<Rightarrow> int \<times> bool \<times> 'a \<times> 'd pool"

text \<open>One entry of the log of the walk: the node visited and what the callback returned.\<close>

type_synonym 'd visit = "'d repository_pool \<times> int \<times> bool"

text \<open>
  Modelled from the spec: the macro \<open>SIMPLEQ_FOREACH_SAFE\<close> is missing. The "traversal
  must pre-fetch the next-entry reference before invoking the callback on the current
  one". The function is the macro with the loop body of lines 275 to 277: \<open>var\<close> is the
  pointer \<open>rpool\<close>; \<open>rpool_new\<close> is read from the node before the callback runs; the loop
  ends when \<open>var\<close> is NULL, or breaks when the callback returns a status other than 0 or
  sets \<open>done\<close>. The log of the visits is kept beside the state. \<open>None\<close>: the loop does
  not end, or it reads a node that is not in the queue any more.
\<close>

partial_function (option) foreach_safe ::
  "('a, 'd) callback \<Rightarrow> addr option \<Rightarrow> int \<Rightarrow> 'd visit list \<Rightarrow> 'a \<Rightarrow> 'd pool \<Rightarrow>
   (int \<times> 'd visit list \<times> 'a \<times> 'd pool) option" where
  "foreach_safe fn var rv log arg s =
     (case var of
        None \<Rightarrow> Some (rv, log, arg, s)
      | Some a \<Rightarrow>
          (case node_at (rpool_queue s) a of
             None \<Rightarrow> None
           | Some rpool \<Rightarrow>
               (case sqe_next (rpool_queue s) a of
                  rpool_new \<Rightarrow>
                    (case fn rpool arg s of
                       (rv', done, arg', s') \<Rightarrow>
                         if rv' \<noteq> 0 \<or> done
                         then Some (rv', log @ [(rpool, rv', done)], arg', s')
                         else foreach_safe fn rpool_new rv' (log @ [(rpool, rv', done)])
                                arg' s'))))"

definition xbps_repository_pool_foreach ::
  "('w, 'd) collaborators \<Rightarrow> ('a, 'd) callback \<Rightarrow> 'a \<Rightarrow> 'd pool \<Rightarrow> 'w \<Rightarrow>
   (int \<times> 'd visit list \<times> 'a \<times> 'd pool \<times> 'w) option" where
  "xbps_repository_pool_foreach env fn arg s w =
     (case xbps_repository_pool_init env s w of
        None \<Rightarrow> None
      | Some (rv, s1, w1) \<Rightarrow>
          if rv \<noteq> 0 then Some (rv, [], arg, s1, w1)
          else
            (case foreach_safe fn (map_option rp_addr (SIMPLEQ_FIRST (rpool_queue s1)))
                    rv [] arg s1 of
               None \<Rightarrow> None
             | Some (rv', log, arg', s') \<Rightarrow> Some (rv', log, arg', s', w1)))"

subsection \<open>Example pools and collaborators\<close>

text \<open>
  A host of architecture x86_64 on which every collaborator succeeds: the index file is
  always there, \<open>malloc\<close> hands out the addresses 0, 1, 2, ... (the world counts the
  allocations), and the dictionary read from a file is represented by the file's path.
\<close>

definition host_ok :: "(nat, string) collaborators" where
  "host_ok =
     \<lparr>un_machine = ''x86_64'',
      prop_array_iterator = (\<lambda>w. (Inr (), w)),
      xbps_pkg_index_plist = (\<lambda>uri w. (Inr (uri @ ''/pkg-index.plist''), w)),
      access_R_OK = (\<lambda>plist w. (True, w)),
      xbps_repository_sync_pkg_index = (\<lambda>uri w. (0, w)),
      malloc = (\<lambda>w. (Inr w, Suc w)),
      prop_string_cstring = (\<lambda>uri w. (Inr (), w)),
      prop_dictionary_internalize_from_zfile = (\<lambda>plist w. (Inr plist, w))\<rparr>"

text \<open>The same host, where reading the index of repository C fails with EIO (5).\<close>

definition host_corrupt_C :: "(nat, string) collaborators" where
  "host_corrupt_C =
     host_ok\<lparr>prop_dictionary_internalize_from_zfile :=
       (\<lambda>plist w. if plist = ''C/noarch/pkg-index.plist'' then (Inl 5, w)
                   else (Inr plist, w))\<rparr>"

text \<open>
  A pool nothing was built in, with the configured URIs in an array that has \<open>n\<close>
  references.
\<close>

definition fresh_pool :: "nat \<Rightarrow> string list \<Rightarrow> string pool" where
  "fresh_pool n uris =
     \<lparr>rpool_queue = [], repolist_initialized = False,
      repos_array = Some \<lparr>pa_refcnt = n, pa_strings = uris\<rparr>\<rparr>"

text \<open>The node that \<open>host_ok\<close> registers for a URI at address \<open>a\<close>.\<close>

definition node :: "addr \<Rightarrow> string \<Rightarrow> string repository_pool" where
  "node a uri = \<lparr>rp_addr = a, rpi = \<lparr>rpi_uri = uri, rpi_repod = uri @ ''/pkg-index.plist''\<rparr>\<rparr>"

text \<open>
  The invariant of the data model: the flag is false if and only if the queue is empty.
\<close>

definition pool_invariant :: "'d pool \<Rightarrow> bool" where
  "pool_invariant s = (\<not> repolist_initialized s \<longleftrightarrow> rpool_queue s = [])"

text \<open>A pool that is initialized while the handle has no array (the field is NULL).\<close>

definition built_pool_without_array :: "string pool" where
  "built_pool_without_array =
     \<lparr>rpool_queue = [node 0 ''A/noarch''], repolist_initialized = True, repos_array = None\<rparr>"

text \<open>The host on which the path of the index file cannot be made: errno is ENOENT.\<close>

definition host_plist_enoent :: "(nat, string) collaborators" where
  "host_plist_enoent = host_ok\<lparr>xbps_pkg_index_plist := (\<lambda>uri w. (Inl ENOENT, w))\<rparr>"

text \<open>
  A host on which the index of R is not cached and cannot be fetched, the index file of
  M is not found by the deserializer (ENOENT), and the index of C cannot be read (EIO).
\<close>

definition host_mixed :: "(nat, string) collaborators" where
  "host_mixed =
     host_ok\<lparr>access_R_OK := (\<lambda>plist w. (plist \<noteq> ''R/noarch/pkg-index.plist'', w)),
             xbps_repository_sync_pkg_index := (\<lambda>uri w. (- 1, w)),
             prop_dictionary_internalize_from_zfile :=
               (\<lambda>plist w.
                  if plist = ''M/noarch/pkg-index.plist'' then (Inl ENOENT, w)
                  else if plist = ''C/noarch/pkg-index.plist'' then (Inl 5, w)
                  else (Inr plist, w))\<rparr>"

text \<open>
  The host after the index files of C and D were removed: the deserializer does not find
  them (ENOENT).
\<close>

definition host_missing_C_D :: "(nat, string) collaborators" where
  "host_missing_C_D =
     host_ok\<lparr>prop_dictionary_internalize_from_zfile :=
       (\<lambda>plist w.
          if plist = ''C/noarch/pkg-index.plist'' \<or> plist = ''D/noarch/pkg-index.plist''
          then (Inl ENOENT, w) else (Inr plist, w))\<rparr>"

text \<open>
  The pool that the build of A, B, C and D leaves when reading the index of C fails with
  EIO: the flag is false, the nodes of A and B are registered.
\<close>

definition aborted_pool :: "string pool" where
  "aborted_pool =
     \<lparr>rpool_queue = [node 0 ''A/noarch'', node 2 ''B/noarch''], repolist_initialized = False,
      repos_array = Some \<lparr>pa_refcnt = 1,
        pa_strings = [''A/noarch'', ''B/noarch'', ''C/noarch'', ''D/noarch'']\<rparr>\<rparr>"

subsection \<open>Callbacks and walks\<close>

text \<open>
  The walk over the nodes \<open>rest\<close> that were linked, in this order, when the traversal
  started: the first node is visited, then the others, until a callback returns a
  status other than 0 or sets \<open>done\<close>. The traversal is compared with this walk.
\<close>

fun walk ::
  "('a, 'd) callback \<Rightarrow> 'd repository_pool list \<Rightarrow> int \<Rightarrow> 'd visit list \<Rightarrow> 'a \<Rightarrow> 'd pool \<Rightarrow>
   int \<times> 'd visit list \<times> 'a \<times> 'd pool" where
  "walk fn [] rv log arg s = (rv, log, arg, s)"
| "walk fn (rpool # rest) rv log arg s =
     (case fn rpool arg s of
        (rv', done, arg', s') \<Rightarrow>
          if rv' \<noteq> 0 \<or> done then (rv', log @ [(rpool, rv', done)], arg', s')
          else walk fn rest rv' (log @ [(rpool, rv', done)]) arg' s')"

text \<open>
  A callback that, whenever it is called, leaves the queue as it is or unlinks the node
  it is called on.
\<close>

definition keeps_or_unlinks :: "('a, 'd) callback \<Rightarrow> bool" where
  "keeps_or_unlinks fn \<longleftrightarrow>
     (\<forall>rpool arg s.
        rpool_queue (snd (snd (snd (fn rpool arg s)))) = rpool_queue s \<or>
        rpool_queue (snd (snd (snd (fn rpool arg s)))) =
          SIMPLEQ_REMOVE (rpool_queue s) (rp_addr rpool))"

text \<open>A callback that never changes the queue.\<close>

definition keeps_queue :: "('a, 'd) callback \<Rightarrow> bool" where
  "keeps_queue fn \<longleftrightarrow>
     (\<forall>rpool arg s. rpool_queue (snd (snd (snd (fn rpool arg s)))) = rpool_queue s)"

text \<open>A visit after which the traversal goes on: the status was 0 and \<open>done\<close> not set.\<close>

definition goes_on :: "'d visit \<Rightarrow> bool" where
  "goes_on v \<longleftrightarrow> fst (snd v) = 0 \<and> \<not> snd (snd v)"

text \<open>
  The pool built from the repositories A, B and C, and the callback that counts its
  calls and, at the repository \<open>uri\<close>, sets \<open>done\<close> and returns \<open>status\<close>.
\<close>

definition built_pool :: "string pool" where
  "built_pool =
     \<lparr>rpool_queue = [node 0 ''A/noarch'', node 2 ''B/noarch'', node 4 ''C/noarch''],
      repolist_initialized = True,
      repos_array = Some \<lparr>pa_refcnt = 0, pa_strings = [''A/noarch'', ''B/noarch'', ''C/noarch'']\<rparr>\<rparr>"

definition stop_at :: "string \<Rightarrow> int \<Rightarrow> (nat, string) callback" where
  "stop_at uri status =
     (\<lambda>rpool arg s.
        if rpi_uri (rpi rpool) = uri then (status, True, Suc arg, s)
        else (0, False, Suc arg, s))"

text \<open>A callback that, whenever it is called, unlinks the node it is called on.\<close>

definition unlinks_current :: "('a, 'd) callback \<Rightarrow> bool" where
  "unlinks_current fn \<longleftrightarrow>
     (\<forall>rpool arg s.
        rpool_queue (snd (snd (snd (fn rpool arg s)))) =
          SIMPLEQ_REMOVE (rpool_queue s) (rp_addr rpool))"

text \<open>The callback that counts its calls and unlinks every node it visits.\<close>

definition unlink_visited :: "(nat, string) callback" where
  "unlink_visited =
     (\<lambda>rpool arg s.
        (0, False, Suc arg, s\<lparr>rpool_queue := SIMPLEQ_REMOVE (rpool_queue s) (rp_addr rpool)\<rparr>))"

text \<open>
  Collaborators that succeed on every call: the iterator is obtained, the path of the
  index is made, the index is there or is fetched, memory is allocated, the URI is
  copied, and the index is read.
\<close>

definition always_succeed :: "('w, 'd) collaborators \<Rightarrow> bool" where
  "always_succeed env \<longleftrightarrow>
     (\<forall>w. \<not> isl (fst (prop_array_iterator env w))) \<and>
     (\<forall>uri w. \<not> isl (fst (xbps_pkg_index_plist env uri w))) \<and>
     (\<forall>plist uri w. fst (sync_remote_repo env plist uri w) \<noteq> - 1) \<and>
     (\<forall>w. \<not> isl (fst (malloc env w))) \<and>
     (\<forall>uri w. \<not> isl (fst (prop_string_cstring env uri w))) \<and>
     (\<forall>plist w. \<not> isl (fst (prop_dictionary_internalize_from_zfile env plist w)))"

text \<open>A callback that always returns 0 and never sets \<open>done\<close>.\<close>

definition never_stops :: "('a, 'd) callback \<Rightarrow> bool" where
  "never_stops fn \<longleftrightarrow>
     (\<forall>rpool arg s. fst (fn rpool arg s) = 0 \<and> \<not> fst (snd (fn rpool arg s)))"

text \<open>The URIs of the nodes of a queue, in the order of the queue.\<close>

definition uris :: "'d repository_pool list \<Rightarrow> string list" where
  "uris q = map (\<lambda>rpool. rpi_uri (rpi rpool)) q"

text \<open>The callback that counts its calls and does nothing else.\<close>

definition count_visits :: "(nat, string) callback" where
  "count_visits = (\<lambda>rpool arg s. (0, False, Suc arg, s))"

section \<open>Properties\<close>

subsection \<open>Basic facts\<close>

declare release_loop.simps [simp del]

lemma release_loop_empty: "release_loop q = []"
proof (induction q rule: release_loop.induct)
  case (1 q)
  show ?case
  proof (cases q)
    case Nil
    then show ?thesis
      by (simp add: release_loop.simps [of "[]"] SIMPLEQ_FIRST_def)
  next
    case (Cons r rs)
    then have "release_loop (SIMPLEQ_REMOVE q (rp_addr r)) = []"
      using "1.IH" [of r] by (simp add: SIMPLEQ_FIRST_def)
    then show ?thesis
      using Cons by (simp add: release_loop.simps [of "r # rs"] SIMPLEQ_FIRST_def)
  qed
qed

lemmas pool_eval =
  xbps_repository_pool_init_def pool_step_def pool_out_def xbps_repository_pool_release_def
  release_loop_empty check_repo_arch_def sync_remote_repo_def SIMPLEQ_INSERT_TAIL_def
  SIMPLEQ_FIRST_def ENOENT_def ENOTSUP_def Let_def host_ok_def host_corrupt_C_def
  fresh_pool_def node_def

lemma pool_out_fst: "fst (pool_out rv s w) = rv"
  by (simp add: pool_out_def)

lemma release_uninit:
  "\<not> repolist_initialized s \<Longrightarrow> xbps_repository_pool_release s = s"
  by (simp add: xbps_repository_pool_release_def)

lemma release_init:
  "repolist_initialized s \<Longrightarrow>
   xbps_repository_pool_release s = s\<lparr>rpool_queue := [], repolist_initialized := False\<rparr>"
  by (simp add: xbps_repository_pool_release_def release_loop_empty)

subsection \<open>An aborted build\<close>

text \<open>
  C1. The claim: when a build aborts with a fatal error, it returns the error and the
  queue is empty afterwards. The code: four repositories are configured, all of a
  matching architecture, and reading the index of the third fails with EIO. The build
  returns EIO, and the two nodes registered before the failure are still in the queue:
  the release that the label \<open>out\<close> calls returns at once, since the flag is false.
\<close>

theorem fatal_abort_keeps_registered_nodes:
  "xbps_repository_pool_init host_corrupt_C
     (fresh_pool 1 [''A/noarch'', ''B/noarch'', ''C/noarch'', ''D/noarch'']) 0 =
   Some (5,
     (fresh_pool 1 [''A/noarch'', ''B/noarch'', ''C/noarch'', ''D/noarch''])
       \<lparr>rpool_queue := [node 0 ''A/noarch'', node 2 ''B/noarch'']\<rparr>,
     6)"
  by (simp add: pool_eval)

text \<open>
  C2. The claim: every operation keeps the invariant that the flag is false if and only
  if the queue is empty. The code: the pool nothing was built in satisfies it; the
  build of three configured repositories that stops at the third with EIO returns a
  pool that does not (the flag is false, two nodes are registered).
\<close>

theorem aborted_build_breaks_pool_invariant:
  "pool_invariant (fresh_pool 1 [''A/noarch'', ''B/noarch'', ''C/noarch'']) \<and>
   (\<exists>rv s' w'.
      xbps_repository_pool_init host_corrupt_C
        (fresh_pool 1 [''A/noarch'', ''B/noarch'', ''C/noarch'']) 0 = Some (rv, s', w') \<and>
      \<not> repolist_initialized s' \<and> rpool_queue s' \<noteq> [] \<and> \<not> pool_invariant s')"
  by (simp add: pool_eval pool_invariant_def)

subsection \<open>The loop\<close>

text \<open>What one pass of the loop body does to the queue and the counters.\<close>

lemma pool_step_Next:
  assumes "pool_step env u st = Next st'"
  shows "(st' = st \<and> duprepo (queue st) u)
       \<or> (queue st' = queue st \<and> ntotal st' = ntotal st + 1 \<and>
           nmissing st' = nmissing st + 1 \<and> \<not> duprepo (queue st) u)
       \<or> (\<exists>a d. queue st' = queue st @ [\<lparr>rp_addr = a, rpi = \<lparr>rpi_uri = u, rpi_repod = d\<rparr>\<rparr>] \<and>
            ntotal st' = ntotal st + 1 \<and> nmissing st' = nmissing st \<and>
            \<not> duprepo (queue st) u)"
  using assms
  by (auto simp: pool_step_def Let_def SIMPLEQ_INSERT_TAIL_def
      split: if_splits prod.splits sum.splits)

lemma pool_step_Goto_out:
  assumes "pool_step env u st = Goto_out rv st'"
  shows "queue st' = queue st \<and> ntotal st' = ntotal st + 1 \<and> nmissing st' = nmissing st"
  using assms
  by (auto simp: pool_step_def Let_def SIMPLEQ_INSERT_TAIL_def
      split: if_splits prod.splits sum.splits)

text \<open>
  The loop only appends, and \<open>ntotal - nmissing\<close> grows by the number of nodes appended.
\<close>

lemma pool_loop_Next:
  "pool_loop env us st = Next st' \<Longrightarrow>
   \<exists>new. queue st' = queue st @ new \<and>
     ntotal st' + nmissing st = ntotal st + nmissing st' + length new"
proof (induction us arbitrary: st)
  case Nil
  then show ?case by simp
next
  case (Cons u us)
  from Cons.prems obtain st1 where s1: "pool_step env u st = Next st1"
    and l1: "pool_loop env us st1 = Next st'"
    by (auto split: flow.splits)
  from Cons.IH [OF l1] obtain new where
    n: "queue st' = queue st1 @ new"
       "ntotal st' + nmissing st1 = ntotal st1 + nmissing st' + length new"
    by blast
  from pool_step_Next [OF s1] n show ?case
    by auto
qed

lemma pool_loop_Goto_out:
  "pool_loop env us st = Goto_out rv st' \<Longrightarrow> \<exists>new. queue st' = queue st @ new"
proof (induction us arbitrary: st)
  case Nil
  then show ?case by simp
next
  case (Cons u us)
  show ?case
  proof (cases "pool_step env u st")
    case (Next st1)
    with Cons.prems have "pool_loop env us st1 = Goto_out rv st'" by simp
    from Cons.IH [OF this] pool_step_Next [OF Next] show ?thesis by auto
  next
    case (Goto_out rv1 st1)
    with Cons.prems pool_step_Goto_out [OF Goto_out] show ?thesis by auto
  qed
qed

text \<open>
  So \<open>nmissing\<close> never exceeds \<open>ntotal\<close>: the subtraction of the two \<open>size_t\<close> counters
  after the loop does not wrap, and it is 0 exactly if the counters are equal.
\<close>

lemma pool_loop_counters:
  assumes "pool_loop env us \<lparr>queue = q, ntotal = 0, nmissing = 0, world = w\<rparr> = Next st"
  shows "nmissing st \<le> ntotal st \<and> (ntotal st - nmissing st = 0 \<longleftrightarrow> ntotal st = nmissing st)"
  using pool_loop_Next [OF assms] by auto

text \<open>The loop over a list is the loop over its first part, then over the rest.\<close>

lemma pool_loop_append:
  "pool_loop env (pre @ us) st =
     (case pool_loop env pre st of
        Next st' \<Rightarrow> pool_loop env us st'
      | Goto_out rv st' \<Rightarrow> Goto_out rv st')"
  by (induction pre arbitrary: st) (auto split: flow.splits)

subsection \<open>A build of an initialized pool\<close>

text \<open>A call that returns with the flag set found it set, or set it and returned 0.\<close>

lemma init_sets_flag:
  assumes "xbps_repository_pool_init env s w = Some (rv, s1, w1)" "repolist_initialized s1"
  shows "repolist_initialized s \<and> s1 = s \<and> w1 = w \<or>
         \<not> repolist_initialized s \<and> rv = 0 \<and> repos_array s1 \<noteq> None"
  using assms
  by (auto simp: xbps_repository_pool_init_def pool_out_def xbps_repository_pool_release_def
      split: option.splits if_splits prod.splits sum.splits flow.splits)

text \<open>
  C4, as stated, fails: the function tests the handle's array before the flag, so a call
  on an initialized pool whose handle has no array returns ENOTSUP, not success.
\<close>

theorem initialized_build_fails_without_array:
  "repolist_initialized built_pool_without_array \<and>
   xbps_repository_pool_init host_ok built_pool_without_array 0 =
     Some (ENOTSUP, built_pool_without_array, 0) \<and> ENOTSUP \<noteq> 0"
  by (simp add: xbps_repository_pool_init_def built_pool_without_array_def ENOTSUP_def)

text \<open>
  C4, amended. Whenever the flag is set and the handle's array is not NULL, a call
  returns 0 at once: the pool (queue, flag, array) and the world are as they were, so no
  collaborator was called and no URI processed. In particular, after a call that
  returned 0 with the flag set, a second call with no release in between returns 0 and
  changes nothing, whatever the collaborators would do.
\<close>

theorem build_is_idempotent:
  "(repolist_initialized s \<and> repos_array s \<noteq> None \<longrightarrow>
      xbps_repository_pool_init env s w = Some (0, s, w)) \<and>
   (xbps_repository_pool_init env s w = Some (0, s1, w1) \<and> repolist_initialized s1 \<longrightarrow>
      xbps_repository_pool_init env' s1 w1 = Some (0, s1, w1))"
proof (intro conjI impI)
  assume "repolist_initialized s \<and> repos_array s \<noteq> None"
  then show "xbps_repository_pool_init env s w = Some (0, s, w)"
    by (auto simp: xbps_repository_pool_init_def)
next
  assume a: "xbps_repository_pool_init env s w = Some (0, s1, w1) \<and> repolist_initialized s1"
  then have "repos_array s1 \<noteq> None"
    using init_sets_flag [of env s w 0 s1 w1]
    by (auto simp: xbps_repository_pool_init_def ENOTSUP_def split: option.splits)
  with a show "xbps_repository_pool_init env' s1 w1 = Some (0, s1, w1)"
    by (auto simp: xbps_repository_pool_init_def)
qed

text \<open>
  The amended C4 at a pool built from one repository: a call on the built pool changes
  nothing, and the call right after the build does not read the index again, even on a
  host where that would fail.
\<close>

theorem build_is_idempotent_witness:
  "xbps_repository_pool_init host_ok
     ((fresh_pool 0 [''A/noarch''])
        \<lparr>rpool_queue := [node 0 ''A/noarch''], repolist_initialized := True\<rparr>) 5 =
     Some (0,
       (fresh_pool 0 [''A/noarch''])
         \<lparr>rpool_queue := [node 0 ''A/noarch''], repolist_initialized := True\<rparr>, 5) \<and>
   xbps_repository_pool_init host_ok (fresh_pool 1 [''A/noarch'']) 0 =
     Some (0,
       (fresh_pool 0 [''A/noarch''])
         \<lparr>rpool_queue := [node 0 ''A/noarch''], repolist_initialized := True\<rparr>, 2) \<and>
   xbps_repository_pool_init host_corrupt_C
     ((fresh_pool 0 [''A/noarch''])
        \<lparr>rpool_queue := [node 0 ''A/noarch''], repolist_initialized := True\<rparr>) 2 =
     Some (0,
       (fresh_pool 0 [''A/noarch''])
         \<lparr>rpool_queue := [node 0 ''A/noarch''], repolist_initialized := True\<rparr>, 2)"
proof -
  let ?s1 = "(fresh_pool 0 [''A/noarch''])
       \<lparr>rpool_queue := [node 0 ''A/noarch''], repolist_initialized := True\<rparr>"
  have first: "xbps_repository_pool_init host_ok (fresh_pool 1 [''A/noarch'']) 0 = Some (0, ?s1, 2)"
    by (simp add: pool_eval)
  have flag: "repolist_initialized ?s1 \<and> repos_array ?s1 \<noteq> None"
    by (simp add: fresh_pool_def)
  from build_is_idempotent [where s = ?s1 and env = host_ok and w = 5] flag
  have a: "xbps_repository_pool_init host_ok ?s1 5 = Some (0, ?s1, 5)" by blast
  from build_is_idempotent [where env = host_ok and s = "fresh_pool 1 [''A/noarch'']" and w = 0
      and ?s1.0 = ?s1 and ?w1.0 = 2 and env' = host_corrupt_C] first flag
  have b: "xbps_repository_pool_init host_corrupt_C ?s1 2 = Some (0, ?s1, 2)" by blast
  from a first b show ?thesis by simp
qed

subsection \<open>The architecture of a repository\<close>

text \<open>
  \<open>check_repo_arch\<close> looks at what follows the last slash of the URI: it holds if that is
  "noarch" or the machine of the host, and fails if the URI has no slash.
\<close>

lemma strrchr_last:
  "c \<notin> set seg \<Longrightarrow> strrchr (pre @ c # seg) c = Some (c # seg)"
proof (induction pre)
  case Nil
  have "strrchr seg c = None" using Nil by (induction seg) auto
  then show ?case by simp
next
  case (Cons x pre)
  then show ?case by simp
qed

lemma strrchr_None: "strrchr xs c = None \<longleftrightarrow> c \<notin> set xs"
  by (induction xs) (auto split: option.splits)

lemma check_repo_arch_segment:
  "CHR ''/'' \<notin> set seg \<Longrightarrow>
   check_repo_arch machine (pre @ CHR ''/'' # seg) \<longleftrightarrow>
     seg \<noteq> [] \<and> (seg = ''noarch'' \<or> seg = machine)"
  by (simp add: check_repo_arch_def strrchr_last Let_def)

lemma check_repo_arch_no_slash:
  "CHR ''/'' \<notin> set uri \<Longrightarrow> \<not> check_repo_arch machine uri"
  using strrchr_None [of uri "CHR ''/''"] by (simp add: check_repo_arch_def)

subsection \<open>A build that registers nothing\<close>

text \<open>
  The exit with \<open>ntotal - nmissing = 0\<close> (lines 210 to 214) when the flag is false: the
  loop registered nothing, so the queue is the one the call started with, and the
  release at the label \<open>out\<close> returns at once. The call returns ENOTSUP and the pool it
  was given: the queue is empty afterwards only if it was empty before.
\<close>

lemma unusable_build_leaves_pool:
  assumes "\<not> repolist_initialized s"
    and "repos_array s = Some arr" and "0 < pa_refcnt arr" and "pa_strings arr \<noteq> []"
    and "prop_array_iterator env w = (Inr it, w0)"
    and "pool_loop env (pa_strings arr)
           \<lparr>queue = rpool_queue s, ntotal = 0, nmissing = 0, world = w0\<rparr> = Next st"
    and "ntotal st - nmissing st = 0"
  shows "xbps_repository_pool_init env s w = Some (ENOTSUP, s, world st)"
proof -
  from pool_loop_Next [OF assms(6)] obtain new where "queue st = rpool_queue s @ new"
    and "ntotal st = nmissing st + length new"
    by fastforce
  with assms(7) have q: "queue st = rpool_queue s" by simp
  have "xbps_repository_pool_init env s w =
      Some (pool_out ENOTSUP (s\<lparr>rpool_queue := queue st\<rparr>) (world st))"
    using assms by (simp add: xbps_repository_pool_init_def)
  then show ?thesis
    using q assms(1) by (simp add: pool_out_def ENOTSUP_def xbps_repository_pool_release_def)
qed

text \<open>
  The same for a configured array of one URI whose part after the last slash is neither
  "noarch" nor the machine of the host.
\<close>

lemma unmatched_single_uri_leaves_pool:
  assumes "\<not> repolist_initialized s"
    and "repos_array s = Some arr" and "0 < pa_refcnt arr"
    and "pa_strings arr = [pre @ CHR ''/'' # seg]" and "CHR ''/'' \<notin> set seg"
    and "seg \<noteq> ''noarch''" and "seg \<noteq> un_machine env"
    and "prop_array_iterator env w = (Inr it, w0)"
  shows "xbps_repository_pool_init env s w = Some (ENOTSUP, s, w0)"
proof -
  have "\<not> check_repo_arch (un_machine env) (pre @ CHR ''/'' # seg)"
    using assms(5-7) by (simp add: check_repo_arch_segment)
  then show ?thesis
    using assms
    by (simp add: xbps_repository_pool_init_def pool_step_def pool_out_def ENOTSUP_def
        xbps_repository_pool_release_def)
qed

text \<open>
  On an x86_64 host and a pool nothing was built in: three configured strings, all of
  another architecture (one of them twice), and the single URI \<open>X/otherarch\<close>.
\<close>

lemma unusable_build_of_fresh_pool:
  "xbps_repository_pool_init host_ok (fresh_pool 1 [''X/armv7'', ''Y/armv7'', ''X/armv7'']) 0 =
     Some (ENOTSUP, fresh_pool 1 [''X/armv7'', ''Y/armv7'', ''X/armv7''], 0) \<and>
   xbps_repository_pool_init host_ok (fresh_pool 1 [''X/otherarch'']) 0 =
     Some (ENOTSUP, fresh_pool 1 [''X/otherarch''], 0)"
  by (simp add: pool_eval)

text \<open>
  C6. The claim: a build that ends with \<open>ntotal - nmissing = 0\<close> returns ENOTSUP and
  leaves the queue empty. The code: the build of A, B, C and D that stops at C with EIO
  leaves the nodes of A and B registered and the flag false. The index files of C and D
  are then removed, and the build is called again on that pool. A and B are skipped as
  duplicates, C and D are counted and are missing, so the loop ends with
  \<open>ntotal = nmissing = 2\<close>. The call returns ENOTSUP, and the nodes of A and B are still
  in the queue: the release that the label \<open>out\<close> calls returns at once, since the flag is
  false.
\<close>

theorem unusable_build_keeps_registered_nodes:
  "xbps_repository_pool_init host_corrupt_C
     (fresh_pool 1 [''A/noarch'', ''B/noarch'', ''C/noarch'', ''D/noarch'']) 0 =
     Some (5, aborted_pool, 6) \<and>
   pool_loop host_missing_C_D [''A/noarch'', ''B/noarch'', ''C/noarch'', ''D/noarch'']
     \<lparr>queue = rpool_queue aborted_pool, ntotal = 0, nmissing = 0, world = 6\<rparr> =
     Next \<lparr>queue = [node 0 ''A/noarch'', node 2 ''B/noarch''], ntotal = 2, nmissing = 2,
           world = 10\<rparr> \<and>
   xbps_repository_pool_init host_missing_C_D aborted_pool 6 =
     Some (ENOTSUP, aborted_pool, 10) \<and>
   rpool_queue aborted_pool = [node 0 ''A/noarch'', node 2 ''B/noarch'']"
  by (simp add: pool_eval host_missing_C_D_def aborted_pool_def)

subsection \<open>The values a build returns\<close>

text \<open>
  C9, as stated, fails: only the errno of the deserializer is compared with ENOENT. When
  \<open>xbps_pkg_index_plist\<close> fails and errno is ENOENT, the call returns ENOENT.
\<close>

theorem build_returns_not_found:
  "xbps_repository_pool_init host_plist_enoent (fresh_pool 1 [''A/noarch'']) 0 =
     Some (ENOENT, fresh_pool 1 [''A/noarch''], 0)"
  by (simp add: pool_eval host_plist_enoent_def)

text \<open>The errno that one pass of the loop body, and the loop, jump to \<open>out\<close> with.\<close>

lemma pool_step_errno:
  assumes "pool_step env u st = Goto_out rv st'"
  shows "(\<exists>w w'. xbps_pkg_index_plist env u w = (Inl rv, w')) \<or>
         (\<exists>w w'. malloc env w = (Inl rv, w')) \<or>
         (\<exists>w w'. prop_string_cstring env u w = (Inl rv, w')) \<or>
         (rv \<noteq> ENOENT \<and>
          (\<exists>plist w w'. prop_dictionary_internalize_from_zfile env plist w = (Inl rv, w')))"
  using assms
  unfolding pool_step_def Let_def
  by (auto split: if_splits prod.splits sum.splits)

lemma pool_loop_errno:
  assumes "pool_loop env us st = Goto_out rv st'"
  shows "(\<exists>u w w'. xbps_pkg_index_plist env u w = (Inl rv, w')) \<or>
         (\<exists>w w'. malloc env w = (Inl rv, w')) \<or>
         (\<exists>u w w'. prop_string_cstring env u w = (Inl rv, w')) \<or>
         (rv \<noteq> ENOENT \<and>
          (\<exists>plist w w'. prop_dictionary_internalize_from_zfile env plist w = (Inl rv, w')))"
  using assms
proof (induction us arbitrary: st)
  case Nil
  then show ?case by simp
next
  case (Cons u us)
  show ?case
  proof (cases "pool_step env u st")
    case (Next st1)
    with Cons.prems have "pool_loop env us st1 = Goto_out rv st'" by simp
    from Cons.IH [OF this] show ?thesis .
  next
    case (Goto_out rv1 st1)
    with Cons.prems have "rv1 = rv" by simp
    with pool_step_errno [OF Goto_out] show ?thesis by blast
  qed
qed

text \<open>
  C9, amended. A value that a call returns is 0, or ENOTSUP, or the errno with which
  obtaining the iterator, making the path of the index file, an allocation or the copy
  of the URI failed (passed on as it is, ENOENT included), or the errno with which the
  deserializer failed, and then it is not ENOENT: "not found" is absorbed from the
  deserializer only.
\<close>

theorem build_return_values:
  assumes "xbps_repository_pool_init env s w = Some (rv, s', w')"
  shows "rv = 0 \<or> rv = ENOTSUP \<or>
         (\<exists>w1 w2. prop_array_iterator env w1 = (Inl rv, w2)) \<or>
         (\<exists>u w1 w2. xbps_pkg_index_plist env u w1 = (Inl rv, w2)) \<or>
         (\<exists>w1 w2. malloc env w1 = (Inl rv, w2)) \<or>
         (\<exists>u w1 w2. prop_string_cstring env u w1 = (Inl rv, w2)) \<or>
         (rv \<noteq> ENOENT \<and>
          (\<exists>plist w1 w2. prop_dictionary_internalize_from_zfile env plist w1 = (Inl rv, w2)))"
proof (cases "repos_array s")
  case None
  with assms show ?thesis by (simp add: xbps_repository_pool_init_def)
next
  case (Some arr)
  show ?thesis
  proof (cases "repolist_initialized s \<or> pa_strings arr = []")
    case True
    with assms Some show ?thesis
      by (auto simp: xbps_repository_pool_init_def split: if_splits)
  next
    case False
    with assms Some have live: "0 < pa_refcnt arr"
      by (auto simp: xbps_repository_pool_init_def split: if_splits)
    obtain r w0 where it: "prop_array_iterator env w = (r, w0)"
      by (cases "prop_array_iterator env w")
    show ?thesis
    proof (cases r)
      case (Inl e)
      with assms Some False live it have "rv = e"
        using pool_out_fst [of e s w0] by (auto simp: xbps_repository_pool_init_def)
      with it Inl show ?thesis by blast
    next
      case (Inr i)
      let ?st0 = "\<lparr>queue = rpool_queue s, ntotal = 0, nmissing = 0, world = w0\<rparr>"
      show ?thesis
      proof (cases "pool_loop env (pa_strings arr) ?st0")
        case (Next st)
        with assms Some False live it Inr have "rv = 0 \<or> rv = ENOTSUP"
          by (auto simp: xbps_repository_pool_init_def pool_out_def split: if_splits)
        then show ?thesis by blast
      next
        case (Goto_out e st)
        with assms Some False live it Inr have "rv = e"
          using pool_out_fst [of e "s\<lparr>rpool_queue := queue st\<rparr>" "world st"]
          by (auto simp: xbps_repository_pool_init_def)
        with pool_loop_errno [OF Goto_out] show ?thesis by blast
      qed
    qed
  qed
qed

text \<open>
  The amended C9 where the index of the only repository cannot be read (EIO): the call
  returns 5, which the deserializer reported and which is not ENOENT.
\<close>

theorem build_return_values_witness:
  "xbps_repository_pool_init host_corrupt_C (fresh_pool 1 [''C/noarch'']) 0 =
     Some (5, fresh_pool 1 [''C/noarch''], 2) \<and>
   (5 = ENOTSUP \<or>
    5 \<noteq> ENOENT \<and>
    (\<exists>plist w1 w2.
       prop_dictionary_internalize_from_zfile host_corrupt_C plist w1 = (Inl 5, w2)))"
proof -
  have run: "xbps_repository_pool_init host_corrupt_C (fresh_pool 1 [''C/noarch'']) 0 =
     Some (5, fresh_pool 1 [''C/noarch''], 2)"
    by (simp add: pool_eval)
  from build_return_values [OF run] run show ?thesis
    by (simp add: host_corrupt_C_def host_ok_def)
qed

subsection \<open>The configured array after a build\<close>

text \<open>
  C10, as stated, fails. The handle's array has two references (the handle's and one
  more); one repository is configured. The build succeeds and drops one reference; the
  release empties the pool; the handle's field still points to the array, so the next
  build does not return ENOTSUP: it registers the repository again and returns 0.
\<close>

theorem build_after_release_rebuilds:
  "xbps_repository_pool_init host_ok (fresh_pool 2 [''A/noarch'']) 0 =
     Some (0, (fresh_pool 1 [''A/noarch''])
                \<lparr>rpool_queue := [node 0 ''A/noarch''], repolist_initialized := True\<rparr>, 2) \<and>
   xbps_repository_pool_release
     ((fresh_pool 1 [''A/noarch''])
        \<lparr>rpool_queue := [node 0 ''A/noarch''], repolist_initialized := True\<rparr>) =
     fresh_pool 1 [''A/noarch''] \<and>
   xbps_repository_pool_init host_ok (fresh_pool 1 [''A/noarch'']) 2 =
     Some (0, (fresh_pool 0 [''A/noarch''])
                \<lparr>rpool_queue := [node 2 ''A/noarch''], repolist_initialized := True\<rparr>, 4) \<and>
   0 \<noteq> ENOTSUP"
  by (simp add: pool_eval)

lemma init_keeps_strings:
  assumes "xbps_repository_pool_init env s w = Some (rv, s', w')"
  shows "map_option pa_strings (repos_array s') = map_option pa_strings (repos_array s)"
  using assms
  by (auto simp: xbps_repository_pool_init_def pool_out_def xbps_repository_pool_release_def
      split: option.splits if_splits prod.splits sum.splits flow.splits)

lemma init_success_state:
  assumes "\<not> repolist_initialized s" and "repos_array s = Some arr"
    and "xbps_repository_pool_init env s w = Some (rv, s1, w1)" and "repolist_initialized s1"
  shows "\<exists>q. s1 = s\<lparr>rpool_queue := q, repolist_initialized := True,
                  repos_array := Some (arr\<lparr>pa_refcnt := pa_refcnt arr - 1\<rparr>)\<rparr>"
  using assms
  by (auto simp: xbps_repository_pool_init_def pool_out_def xbps_repository_pool_release_def
      split: option.splits if_splits prod.splits sum.splits flow.splits)

text \<open>A call on a pool that is not initialized has no result only if the array is destroyed.\<close>

lemma init_undefined_iff:
  assumes "repos_array s = Some arr" and "\<not> repolist_initialized s"
  shows "xbps_repository_pool_init env s w = None \<longleftrightarrow> pa_refcnt arr = 0"
  using assms
  by (auto simp: xbps_repository_pool_init_def pool_out_def
      split: prod.splits sum.splits flow.splits)

text \<open>
  C10, amended. A call returns ENOTSUP and leaves the pool as it is when the handle's
  field is NULL. No call clears the field or puts another array there, and release does
  not touch it. A build that starts from an empty pool and sets the flag drops one
  reference of the array; after the release that follows, the pool is the pool from
  before the build with that one reference less. The next build then reads the array
  again: it has a result exactly if the array has a reference left (the count before
  the first build was not 1), and it is the run of a first build on that pool.
\<close>

theorem build_keeps_handle_field:
  "(repos_array s = None \<longrightarrow> xbps_repository_pool_init env s w = Some (ENOTSUP, s, w)) \<and>
   (xbps_repository_pool_init env s w = Some (rv, s1, w1) \<longrightarrow>
      map_option pa_strings (repos_array s1) = map_option pa_strings (repos_array s)) \<and>
   repos_array (xbps_repository_pool_release s) = repos_array s \<and>
   (\<not> repolist_initialized s \<and> rpool_queue s = [] \<and> repos_array s = Some arr \<and>
    xbps_repository_pool_init env s w = Some (rv, s1, w1) \<and> repolist_initialized s1 \<longrightarrow>
      xbps_repository_pool_release s1 =
        s\<lparr>repos_array := Some (arr\<lparr>pa_refcnt := pa_refcnt arr - 1\<rparr>)\<rparr> \<and>
      (xbps_repository_pool_init env' (xbps_repository_pool_release s1) w2 = None
         \<longleftrightarrow> pa_refcnt arr = 1))"
proof (intro conjI impI)
  show "repos_array s = None \<Longrightarrow> xbps_repository_pool_init env s w = Some (ENOTSUP, s, w)"
    by (simp add: xbps_repository_pool_init_def)
  show "xbps_repository_pool_init env s w = Some (rv, s1, w1) \<Longrightarrow>
      map_option pa_strings (repos_array s1) = map_option pa_strings (repos_array s)"
    by (rule init_keeps_strings)
  show "repos_array (xbps_repository_pool_release s) = repos_array s"
    by (simp add: xbps_repository_pool_release_def)
next
  assume a: "\<not> repolist_initialized s \<and> rpool_queue s = [] \<and> repos_array s = Some arr \<and>
    xbps_repository_pool_init env s w = Some (rv, s1, w1) \<and> repolist_initialized s1"
  then obtain q where s1: "s1 = s\<lparr>rpool_queue := q, repolist_initialized := True,
                  repos_array := Some (arr\<lparr>pa_refcnt := pa_refcnt arr - 1\<rparr>)\<rparr>"
    using init_success_state [of s arr env w rv s1 w1] by blast
  with a show r: "xbps_repository_pool_release s1 =
        s\<lparr>repos_array := Some (arr\<lparr>pa_refcnt := pa_refcnt arr - 1\<rparr>)\<rparr>"
    by (simp add: release_init)
  from a have "0 < pa_refcnt arr"
    by (auto simp: xbps_repository_pool_init_def split: if_splits)
  then show "xbps_repository_pool_init env' (xbps_repository_pool_release s1) w2 = None
         \<longleftrightarrow> pa_refcnt arr = 1"
    using a init_undefined_iff
      [of "s\<lparr>repos_array := Some (arr\<lparr>pa_refcnt := pa_refcnt arr - 1\<rparr>)\<rparr>"
          "arr\<lparr>pa_refcnt := pa_refcnt arr - 1\<rparr>" env' w2]
    unfolding r by auto
qed

text \<open>
  The amended C10 at the pool of one repository: with two references the pool after
  build and release is the fresh pool with one reference, and the next build has a
  result; with one reference the array is destroyed and the next build has none. With a
  NULL field the call returns ENOTSUP.
\<close>

theorem build_keeps_handle_field_witness:
  "xbps_repository_pool_release
     ((fresh_pool 1 [''A/noarch''])
        \<lparr>rpool_queue := [node 0 ''A/noarch''], repolist_initialized := True\<rparr>) =
     fresh_pool 1 [''A/noarch''] \<and>
   xbps_repository_pool_init host_ok
     (xbps_repository_pool_release
        ((fresh_pool 1 [''A/noarch''])
           \<lparr>rpool_queue := [node 0 ''A/noarch''], repolist_initialized := True\<rparr>)) 2 \<noteq> None \<and>
   xbps_repository_pool_init host_ok
     (xbps_repository_pool_release
        ((fresh_pool 0 [''A/noarch''])
           \<lparr>rpool_queue := [node 0 ''A/noarch''], repolist_initialized := True\<rparr>)) 2 = None \<and>
   xbps_repository_pool_init host_ok built_pool_without_array 0 =
     Some (ENOTSUP, built_pool_without_array, 0) \<and>
   map_option pa_strings
     (repos_array
        ((fresh_pool 1 [''A/noarch''])
           \<lparr>rpool_queue := [node 0 ''A/noarch''], repolist_initialized := True\<rparr>)) =
     map_option pa_strings (repos_array (fresh_pool 2 [''A/noarch'']))"
proof -
  let ?b1 = "(fresh_pool 1 [''A/noarch''])
        \<lparr>rpool_queue := [node 0 ''A/noarch''], repolist_initialized := True\<rparr>"
  let ?b0 = "(fresh_pool 0 [''A/noarch''])
        \<lparr>rpool_queue := [node 0 ''A/noarch''], repolist_initialized := True\<rparr>"
  have two: "xbps_repository_pool_init host_ok (fresh_pool 2 [''A/noarch'']) 0 = Some (0, ?b1, 2)"
    by (simp add: pool_eval)
  have one: "xbps_repository_pool_init host_ok (fresh_pool 1 [''A/noarch'']) 0 = Some (0, ?b0, 2)"
    by (simp add: pool_eval)
  let ?a2 = "\<lparr>pa_refcnt = 2, pa_strings = [''A/noarch'']\<rparr>"
  let ?a1 = "\<lparr>pa_refcnt = 1, pa_strings = [''A/noarch'']\<rparr>"
  have pre2: "\<not> repolist_initialized (fresh_pool 2 [''A/noarch'']) \<and>
      rpool_queue (fresh_pool 2 [''A/noarch'']) = [] \<and>
      repos_array (fresh_pool 2 [''A/noarch'']) = Some ?a2 \<and>
      xbps_repository_pool_init host_ok (fresh_pool 2 [''A/noarch'']) 0 = Some (0, ?b1, 2) \<and>
      repolist_initialized ?b1"
    using two by (simp add: fresh_pool_def)
  have "xbps_repository_pool_release ?b1 =
      (fresh_pool 2 [''A/noarch''])\<lparr>repos_array := Some (?a2\<lparr>pa_refcnt := pa_refcnt ?a2 - 1\<rparr>)\<rparr> \<and>
      (xbps_repository_pool_init host_ok (xbps_repository_pool_release ?b1) 2 = None
         \<longleftrightarrow> pa_refcnt ?a2 = 1)"
    using pre2 build_keeps_handle_field
      [where s = "fresh_pool 2 [''A/noarch'']" and env = host_ok and w = 0 and rv = 0
        and ?s1.0 = ?b1 and ?w1.0 = 2 and env' = host_ok and ?w2.0 = 2 and arr = ?a2]
    by blast
  note after2 = this
  from after2 [THEN conjunct1]
  have "xbps_repository_pool_release ?b1 = fresh_pool 1 [''A/noarch'']"
    by (simp add: fresh_pool_def)
  moreover from after2 [THEN conjunct2]
  have "xbps_repository_pool_init host_ok (xbps_repository_pool_release ?b1) 2 \<noteq> None"
    by simp
  ultimately have a: "xbps_repository_pool_release ?b1 = fresh_pool 1 [''A/noarch''] \<and>
      xbps_repository_pool_init host_ok (xbps_repository_pool_release ?b1) 2 \<noteq> None"
    by blast
  have pre1: "\<not> repolist_initialized (fresh_pool 1 [''A/noarch'']) \<and>
      rpool_queue (fresh_pool 1 [''A/noarch'']) = [] \<and>
      repos_array (fresh_pool 1 [''A/noarch'']) = Some ?a1 \<and>
      xbps_repository_pool_init host_ok (fresh_pool 1 [''A/noarch'']) 0 = Some (0, ?b0, 2) \<and>
      repolist_initialized ?b0"
    using one by (simp add: fresh_pool_def)
  have "xbps_repository_pool_release ?b0 =
      (fresh_pool 1 [''A/noarch''])\<lparr>repos_array := Some (?a1\<lparr>pa_refcnt := pa_refcnt ?a1 - 1\<rparr>)\<rparr> \<and>
      (xbps_repository_pool_init host_ok (xbps_repository_pool_release ?b0) 2 = None
         \<longleftrightarrow> pa_refcnt ?a1 = 1)"
    using pre1 build_keeps_handle_field
      [where s = "fresh_pool 1 [''A/noarch'']" and env = host_ok and w = 0 and rv = 0
        and ?s1.0 = ?b0 and ?w1.0 = 2 and env' = host_ok and ?w2.0 = 2 and arr = ?a1]
    by blast
  from this [THEN conjunct2]
  have b: "xbps_repository_pool_init host_ok (xbps_repository_pool_release ?b0) 2 = None"
    by simp
  have c: "xbps_repository_pool_init host_ok built_pool_without_array 0 =
     Some (ENOTSUP, built_pool_without_array, 0)"
    using build_keeps_handle_field [where s = built_pool_without_array and env = host_ok and w = 0]
    by (simp add: built_pool_without_array_def)
  have d: "map_option pa_strings (repos_array ?b1) =
      map_option pa_strings (repos_array (fresh_pool 2 [''A/noarch'']))"
    using two build_keeps_handle_field
      [where s = "fresh_pool 2 [''A/noarch'']" and env = host_ok and w = 0 and rv = 0
        and ?s1.0 = ?b1 and ?w1.0 = 2 and env' = host_ok and ?w2.0 = 2 and arr = ?a2]
    by blast
  from a b c d show ?thesis by blast
qed

subsection \<open>Failures of one repository and failures of the build\<close>

text \<open>The result of the call when the loop jumps to \<open>out\<close>.\<close>

lemma init_of_loop:
  assumes "repos_array s = Some arr" and "\<not> repolist_initialized s" and "0 < pa_refcnt arr"
    and "pa_strings arr \<noteq> []"
    and "prop_array_iterator env w = (Inr it, w0)"
    and "pool_loop env (pa_strings arr)
           \<lparr>queue = rpool_queue s, ntotal = 0, nmissing = 0, world = w0\<rparr> = Goto_out e st'"
  shows "xbps_repository_pool_init env s w =
           Some (pool_out e (s\<lparr>rpool_queue := queue st'\<rparr>) (world st'))"
  using assms by (simp add: xbps_repository_pool_init_def)

lemma pool_out_returns: "\<exists>s'. pool_out e s w = (e, s', w)"
  by (simp add: pool_out_def)

text \<open>
  C3. The array is alive and the pool not initialized; \<open>u\<close> is a configured URI, after
  the URIs \<open>pre\<close> and before \<open>rest\<close>. If the iterator cannot be obtained, the call returns
  the errno \<open>e\<close> of that failure. Otherwise let the loop reach \<open>u\<close> with the locals \<open>st\<close>,
  and let \<open>u\<close> not be registered yet. Then
  \<^item> if the architecture of \<open>u\<close> does not match, or the index is not there and cannot be
    fetched, or the deserializer fails with ENOENT, the loop goes on with \<open>rest\<close>, with
    both counters one higher and the queue as it was;
  \<^item> if the path of the index cannot be made, or one of the two allocations or the copy
    of the URI fails, or the deserializer fails with an errno other than ENOENT, the call
    returns that errno \<open>e\<close>, in the world just after the failed call (no collaborator is
    called for \<open>rest\<close>).
\<close>

theorem failures_are_not_conflated:
  assumes "repos_array s = Some arr" and "\<not> repolist_initialized s" and "0 < pa_refcnt arr"
    and "pa_strings arr = pre @ u # rest"
  shows
    "(prop_array_iterator env w = (Inl e, w0) \<longrightarrow>
        (\<exists>s'. xbps_repository_pool_init env s w = Some (e, s', w0))) \<and>
     (prop_array_iterator env w = (Inr it, w0) \<and>
      pool_loop env pre \<lparr>queue = rpool_queue s, ntotal = 0, nmissing = 0, world = w0\<rparr> = Next st \<and>
      \<not> duprepo (queue st) u \<longrightarrow>
        (\<not> check_repo_arch (un_machine env) u \<longrightarrow>
           pool_loop env (pa_strings arr)
             \<lparr>queue = rpool_queue s, ntotal = 0, nmissing = 0, world = w0\<rparr> =
           pool_loop env rest (st\<lparr>ntotal := ntotal st + 1, nmissing := nmissing st + 1\<rparr>)) \<and>
        (check_repo_arch (un_machine env) u \<and>
         xbps_pkg_index_plist env u (world st) = (Inr plist, w1) \<longrightarrow>
           (access_R_OK env plist w1 = (False, w1') \<and>
            xbps_repository_sync_pkg_index env u w1' = (- 1, w2) \<longrightarrow>
              pool_loop env (pa_strings arr)
                \<lparr>queue = rpool_queue s, ntotal = 0, nmissing = 0, world = w0\<rparr> =
              pool_loop env rest
                (st\<lparr>ntotal := ntotal st + 1, nmissing := nmissing st + 1, world := w2\<rparr>)) \<and>
           (sync_remote_repo env plist u w1 = (0, w2) \<and> malloc env w2 = (Inr a, w3) \<and>
            malloc env w3 = (Inr b, w4) \<and> prop_string_cstring env u w4 = (Inr c, w5) \<and>
            prop_dictionary_internalize_from_zfile env plist w5 = (Inl ENOENT, w6) \<longrightarrow>
              pool_loop env (pa_strings arr)
                \<lparr>queue = rpool_queue s, ntotal = 0, nmissing = 0, world = w0\<rparr> =
              pool_loop env rest
                (st\<lparr>ntotal := ntotal st + 1, nmissing := nmissing st + 1, world := w6\<rparr>))) \<and>
        (check_repo_arch (un_machine env) u \<and>
         xbps_pkg_index_plist env u (world st) = (Inl e, w1) \<longrightarrow>
           (\<exists>s'. xbps_repository_pool_init env s w = Some (e, s', w1))) \<and>
        (check_repo_arch (un_machine env) u \<and>
         xbps_pkg_index_plist env u (world st) = (Inr plist, w1) \<and>
         sync_remote_repo env plist u w1 = (0, w2) \<longrightarrow>
           (malloc env w2 = (Inl e, w3) \<longrightarrow>
              (\<exists>s'. xbps_repository_pool_init env s w = Some (e, s', w3))) \<and>
           (malloc env w2 = (Inr a, w3) \<and> malloc env w3 = (Inl e, w4) \<longrightarrow>
              (\<exists>s'. xbps_repository_pool_init env s w = Some (e, s', w4))) \<and>
           (malloc env w2 = (Inr a, w3) \<and> malloc env w3 = (Inr b, w4) \<and>
            prop_string_cstring env u w4 = (Inl e, w5) \<longrightarrow>
              (\<exists>s'. xbps_repository_pool_init env s w = Some (e, s', w5))) \<and>
           (malloc env w2 = (Inr a, w3) \<and> malloc env w3 = (Inr b, w4) \<and>
            prop_string_cstring env u w4 = (Inr c, w5) \<and>
            prop_dictionary_internalize_from_zfile env plist w5 = (Inl e, w6) \<and>
            e \<noteq> ENOENT \<longrightarrow>
              (\<exists>s'. xbps_repository_pool_init env s w = Some (e, s', w6)))))"
proof -
  let ?st0 = "\<lparr>queue = rpool_queue s, ntotal = 0, nmissing = 0, world = w0\<rparr>"
  have ne: "pa_strings arr \<noteq> []" using assms(4) by simp
  have iter: "prop_array_iterator env w = (Inl e, w0) \<Longrightarrow>
      \<exists>s'. xbps_repository_pool_init env s w = Some (e, s', w0)"
    using assms ne pool_out_returns [of e s w0]
    by (auto simp: xbps_repository_pool_init_def)
  have reach: "pool_loop env (pa_strings arr) ?st0 =
      (case pool_step env u st of
         Next st' \<Rightarrow> pool_loop env rest st'
       | Goto_out rv st' \<Rightarrow> Goto_out rv st')"
    if "pool_loop env pre ?st0 = Next st"
    using that assms(4) by (simp add: pool_loop_append)
  have skip: "pool_loop env (pa_strings arr) ?st0 = pool_loop env rest st'"
    if "pool_loop env pre ?st0 = Next st" "pool_step env u st = Next st'" for st'
    using reach that by simp
  have abort: "\<exists>s'. xbps_repository_pool_init env s w = Some (e, s', w')"
    if "prop_array_iterator env w = (Inr it, w0)" "pool_loop env pre ?st0 = Next st"
      "pool_step env u st = Goto_out e st'" "world st' = w'" for st' w'
  proof -
    have "pool_loop env (pa_strings arr) ?st0 = Goto_out e st'"
      using reach that by simp
    from init_of_loop [OF assms(1-3) ne that(1) this] that(4)
      pool_out_returns [of e "s\<lparr>rpool_queue := queue st'\<rparr>" w']
    show ?thesis by auto
  qed
  show ?thesis
    apply (intro conjI impI)
    subgoal by (rule iter)
    subgoal by (rule skip) (auto simp: pool_step_def)
    subgoal by (rule skip) (auto simp: pool_step_def sync_remote_repo_def)
    subgoal by (rule skip) (auto simp: pool_step_def)
    subgoal by (rule abort [where st' = "st\<lparr>ntotal := ntotal st + 1, world := w1\<rparr>"])
        (auto simp: pool_step_def)
    subgoal by (rule abort [where st' = "st\<lparr>ntotal := ntotal st + 1, world := w3\<rparr>"])
        (auto simp: pool_step_def)
    subgoal by (rule abort [where st' = "st\<lparr>ntotal := ntotal st + 1, world := w4\<rparr>"])
        (auto simp: pool_step_def)
    subgoal by (rule abort [where st' = "st\<lparr>ntotal := ntotal st + 1, world := w5\<rparr>"])
        (auto simp: pool_step_def)
    subgoal by (rule abort [where st' = "st\<lparr>ntotal := ntotal st + 1, world := w6\<rparr>"])
        (auto simp: pool_step_def)
    done
qed


text \<open>
  C3 on the host \<open>host_mixed\<close> with six configured repositories: A is registered, X has
  another architecture, R cannot be fetched, the index of M is not found, and the build
  stops at C with EIO, before D. Then, with the one repository A configured: the
  iterator is not obtained (ENOMEM, 12), the path of the index cannot be made (ENOENT),
  the first allocation fails, the second allocation fails, and the copy of the URI
  fails; each time the call returns that errno.
\<close>

theorem failures_are_not_conflated_witness:
  "pool_loop host_mixed
     [''A/noarch'', ''X/armv7'', ''R/noarch'', ''M/noarch'', ''C/noarch'', ''D/noarch'']
     \<lparr>queue = [], ntotal = 0, nmissing = 0, world = 0\<rparr> =
   pool_loop host_mixed [''R/noarch'', ''M/noarch'', ''C/noarch'', ''D/noarch'']
     \<lparr>queue = [node 0 ''A/noarch''], ntotal = 2, nmissing = 1, world = 2\<rparr> \<and>
   pool_loop host_mixed
     [''A/noarch'', ''X/armv7'', ''R/noarch'', ''M/noarch'', ''C/noarch'', ''D/noarch'']
     \<lparr>queue = [], ntotal = 0, nmissing = 0, world = 0\<rparr> =
   pool_loop host_mixed [''M/noarch'', ''C/noarch'', ''D/noarch'']
     \<lparr>queue = [node 0 ''A/noarch''], ntotal = 3, nmissing = 2, world = 2\<rparr> \<and>
   pool_loop host_mixed
     [''A/noarch'', ''X/armv7'', ''R/noarch'', ''M/noarch'', ''C/noarch'', ''D/noarch'']
     \<lparr>queue = [], ntotal = 0, nmissing = 0, world = 0\<rparr> =
   pool_loop host_mixed [''C/noarch'', ''D/noarch'']
     \<lparr>queue = [node 0 ''A/noarch''], ntotal = 4, nmissing = 3, world = 4\<rparr> \<and>
   (\<exists>s'. xbps_repository_pool_init host_mixed
      (fresh_pool 1
         [''A/noarch'', ''X/armv7'', ''R/noarch'', ''M/noarch'', ''C/noarch'', ''D/noarch''])
      0 = Some (5, s', 6)) \<and>
   (\<exists>s'. xbps_repository_pool_init (host_ok\<lparr>prop_array_iterator := (\<lambda>w. (Inl 12, w))\<rparr>)
      (fresh_pool 1 [''A/noarch'']) 0 = Some (12, s', 0)) \<and>
   (\<exists>s'. xbps_repository_pool_init host_plist_enoent
      (fresh_pool 1 [''A/noarch'']) 0 = Some (ENOENT, s', 0)) \<and>
   (\<exists>s'. xbps_repository_pool_init (host_ok\<lparr>malloc := (\<lambda>w. (Inl 12, w))\<rparr>)
      (fresh_pool 1 [''A/noarch'']) 0 = Some (12, s', 0)) \<and>
   (\<exists>s'. xbps_repository_pool_init
      (host_ok\<lparr>malloc := (\<lambda>w. if w = 0 then (Inr 0, 1) else (Inl 12, w))\<rparr>)
      (fresh_pool 1 [''A/noarch'']) 0 = Some (12, s', 1)) \<and>
   (\<exists>s'. xbps_repository_pool_init (host_ok\<lparr>prop_string_cstring := (\<lambda>uri w. (Inl 12, w))\<rparr>)
      (fresh_pool 1 [''A/noarch'']) 0 = Some (12, s', 2))"
proof -
  let ?cfg = "[''A/noarch'', ''X/armv7'', ''R/noarch'', ''M/noarch'', ''C/noarch'', ''D/noarch'']"
  let ?s = "fresh_pool 1 ?cfg"
  let ?arr = "\<lparr>pa_refcnt = 1, pa_strings = ?cfg\<rparr>"
  have s: "repos_array ?s = Some ?arr" "\<not> repolist_initialized ?s" "0 < pa_refcnt ?arr"
    by (simp_all add: fresh_pool_def)
  have q: "rpool_queue ?s = []" by (simp add: fresh_pool_def)
  have atX: "pa_strings ?arr = [''A/noarch''] @ ''X/armv7'' # [''R/noarch'', ''M/noarch'', ''C/noarch'', ''D/noarch'']"
    and atR: "pa_strings ?arr = [''A/noarch'', ''X/armv7''] @ ''R/noarch'' # [''M/noarch'', ''C/noarch'', ''D/noarch'']"
    and atM: "pa_strings ?arr = [''A/noarch'', ''X/armv7'', ''R/noarch''] @ ''M/noarch'' # [''C/noarch'', ''D/noarch'']"
    and atC: "pa_strings ?arr = [''A/noarch'', ''X/armv7'', ''R/noarch'', ''M/noarch''] @ ''C/noarch'' # [''D/noarch'']"
    by simp_all
  let ?st0 = "\<lparr>queue = rpool_queue ?s, ntotal = 0, nmissing = 0, world = 0::nat\<rparr>"
  let ?A = "[node 0 ''A/noarch'']"
  have it: "prop_array_iterator host_mixed 0 = (Inr (), 0)"
    by (simp add: host_mixed_def host_ok_def)
  have m: "un_machine host_mixed = ''x86_64''"
    by (simp add: host_mixed_def host_ok_def)
  have X: "pool_loop host_mixed (pa_strings ?arr) ?st0 =
      pool_loop host_mixed [''R/noarch'', ''M/noarch'', ''C/noarch'', ''D/noarch'']
        (\<lparr>queue = ?A, ntotal = 1, nmissing = 0, world = 2\<rparr>
           \<lparr>ntotal := ntotal \<lparr>queue = ?A, ntotal = 1, nmissing = 0, world = 2\<rparr> + 1,
            nmissing := nmissing \<lparr>queue = ?A, ntotal = 1, nmissing = 0, world = 2\<rparr> + 1\<rparr>)"
  proof -
    have "pool_loop host_mixed [''A/noarch''] ?st0 =
        Next \<lparr>queue = ?A, ntotal = 1, nmissing = 0, world = 2\<rparr>"
      by (simp add: pool_eval host_mixed_def)
    moreover have "\<not> duprepo ?A ''X/armv7''" by (simp add: node_def)
    moreover have "\<not> check_repo_arch (un_machine host_mixed) ''X/armv7''"
      by (simp add: m check_repo_arch_def)
    ultimately show ?thesis
      using it failures_are_not_conflated [OF s atX, where env = host_mixed and w = 0
          and ?w0.0 = 0 and it = "()"
          and st = "\<lparr>queue = ?A, ntotal = 1, nmissing = 0, world = 2\<rparr>"]
      by simp
  qed
  have R: "pool_loop host_mixed (pa_strings ?arr) ?st0 =
      pool_loop host_mixed [''M/noarch'', ''C/noarch'', ''D/noarch'']
        (\<lparr>queue = ?A, ntotal = 2, nmissing = 1, world = 2\<rparr>
           \<lparr>ntotal := ntotal \<lparr>queue = ?A, ntotal = 2, nmissing = 1, world = 2\<rparr> + 1,
            nmissing := nmissing \<lparr>queue = ?A, ntotal = 2, nmissing = 1, world = 2\<rparr> + 1,
            world := 2\<rparr>)"
  proof -
    have "pool_loop host_mixed [''A/noarch'', ''X/armv7''] ?st0 =
        Next \<lparr>queue = ?A, ntotal = 2, nmissing = 1, world = 2\<rparr>"
      by (simp add: pool_eval host_mixed_def)
    moreover have "\<not> duprepo ?A ''R/noarch''" by (simp add: node_def)
    moreover have "check_repo_arch (un_machine host_mixed) ''R/noarch''"
      by (simp add: m check_repo_arch_def)
    moreover have "xbps_pkg_index_plist host_mixed ''R/noarch'' 2 =
        (Inr ''R/noarch/pkg-index.plist'', 2)"
      "access_R_OK host_mixed ''R/noarch/pkg-index.plist'' 2 = (False, 2)"
      "xbps_repository_sync_pkg_index host_mixed ''R/noarch'' 2 = (- 1, 2)"
      by (simp_all add: host_mixed_def host_ok_def)
    ultimately show ?thesis
      using it failures_are_not_conflated [OF s atR, where env = host_mixed and w = 0
          and ?w0.0 = 0 and it = "()"
          and st = "\<lparr>queue = ?A, ntotal = 2, nmissing = 1, world = 2\<rparr>"
          and plist = "''R/noarch/pkg-index.plist''" and ?w1.0 = 2 and w1' = 2 and ?w2.0 = 2]
      by simp
  qed
  have M: "pool_loop host_mixed (pa_strings ?arr) ?st0 =
      pool_loop host_mixed [''C/noarch'', ''D/noarch'']
        (\<lparr>queue = ?A, ntotal = 3, nmissing = 2, world = 2\<rparr>
           \<lparr>ntotal := ntotal \<lparr>queue = ?A, ntotal = 3, nmissing = 2, world = 2\<rparr> + 1,
            nmissing := nmissing \<lparr>queue = ?A, ntotal = 3, nmissing = 2, world = 2\<rparr> + 1,
            world := 4\<rparr>)"
  proof -
    have "pool_loop host_mixed [''A/noarch'', ''X/armv7'', ''R/noarch''] ?st0 =
        Next \<lparr>queue = ?A, ntotal = 3, nmissing = 2, world = 2\<rparr>"
      by (simp add: pool_eval host_mixed_def)
    moreover have "\<not> duprepo ?A ''M/noarch''" by (simp add: node_def)
    moreover have "check_repo_arch (un_machine host_mixed) ''M/noarch''"
      by (simp add: m check_repo_arch_def)
    moreover have "xbps_pkg_index_plist host_mixed ''M/noarch'' 2 =
        (Inr ''M/noarch/pkg-index.plist'', 2)"
      "sync_remote_repo host_mixed ''M/noarch/pkg-index.plist'' ''M/noarch'' 2 = (0, 2)"
      "malloc host_mixed 2 = (Inr 2, 3)" "malloc host_mixed 3 = (Inr 3, 4)"
      "prop_string_cstring host_mixed ''M/noarch'' 4 = (Inr (), 4)"
      "prop_dictionary_internalize_from_zfile host_mixed ''M/noarch/pkg-index.plist'' 4 =
         (Inl ENOENT, 4)"
      by (simp_all add: host_mixed_def host_ok_def sync_remote_repo_def)
    ultimately show ?thesis
      using it failures_are_not_conflated [OF s atM, where env = host_mixed and w = 0
          and ?w0.0 = 0 and it = "()"
          and st = "\<lparr>queue = ?A, ntotal = 3, nmissing = 2, world = 2\<rparr>"
          and plist = "''M/noarch/pkg-index.plist''" and ?w1.0 = 2 and ?w2.0 = 2
          and a = 2 and ?w3.0 = 3 and b = 3 and ?w4.0 = 4 and c = "()" and ?w5.0 = 4
          and ?w6.0 = 4]
      by simp
  qed
  have C: "\<exists>s'. xbps_repository_pool_init host_mixed ?s 0 = Some (5, s', 6)"
  proof -
    have "pool_loop host_mixed [''A/noarch'', ''X/armv7'', ''R/noarch'', ''M/noarch''] ?st0 =
        Next \<lparr>queue = ?A, ntotal = 4, nmissing = 3, world = 4\<rparr>"
      by (simp add: pool_eval host_mixed_def)
    moreover have "\<not> duprepo ?A ''C/noarch''" by (simp add: node_def)
    moreover have "check_repo_arch (un_machine host_mixed) ''C/noarch''"
      by (simp add: m check_repo_arch_def)
    moreover have "xbps_pkg_index_plist host_mixed ''C/noarch'' 4 =
        (Inr ''C/noarch/pkg-index.plist'', 4)"
      "sync_remote_repo host_mixed ''C/noarch/pkg-index.plist'' ''C/noarch'' 4 = (0, 4)"
      "malloc host_mixed 4 = (Inr 4, 5)" "malloc host_mixed 5 = (Inr 5, 6)"
      "prop_string_cstring host_mixed ''C/noarch'' 6 = (Inr (), 6)"
      "prop_dictionary_internalize_from_zfile host_mixed ''C/noarch/pkg-index.plist'' 6 =
         (Inl 5, 6)"
      "(5::int) \<noteq> ENOENT"
      by (simp_all add: host_mixed_def host_ok_def sync_remote_repo_def ENOENT_def)
    ultimately show ?thesis
      using it failures_are_not_conflated [OF s atC, where env = host_mixed and w = 0
          and ?w0.0 = 0 and it = "()"
          and st = "\<lparr>queue = ?A, ntotal = 4, nmissing = 3, world = 4\<rparr>"
          and e = 5 and plist = "''C/noarch/pkg-index.plist''" and ?w1.0 = 4 and ?w2.0 = 4
          and a = 4 and ?w3.0 = 5 and b = 5 and ?w4.0 = 6 and c = "()" and ?w5.0 = 6
          and ?w6.0 = 6]
      by simp
  qed
  have arr: "pa_strings ?arr = ?cfg" by simp
  have st0: "?st0 = \<lparr>queue = [], ntotal = 0, nmissing = 0, world = 0\<rparr>"
    by (simp add: fresh_pool_def)
  have e1: "\<lparr>queue = ?A, ntotal = 1, nmissing = 0, world = 2\<rparr>
           \<lparr>ntotal := ntotal \<lparr>queue = ?A, ntotal = 1, nmissing = 0, world = 2\<rparr> + 1,
            nmissing := nmissing \<lparr>queue = ?A, ntotal = 1, nmissing = 0, world = 2\<rparr> + 1\<rparr> =
        \<lparr>queue = ?A, ntotal = 2, nmissing = 1, world = 2::nat\<rparr>"
    by simp
  have e2: "\<lparr>queue = ?A, ntotal = 2, nmissing = 1, world = 2\<rparr>
           \<lparr>ntotal := ntotal \<lparr>queue = ?A, ntotal = 2, nmissing = 1, world = 2\<rparr> + 1,
            nmissing := nmissing \<lparr>queue = ?A, ntotal = 2, nmissing = 1, world = 2\<rparr> + 1,
            world := 2\<rparr> =
        \<lparr>queue = ?A, ntotal = 3, nmissing = 2, world = 2::nat\<rparr>"
    by simp
  have e3: "\<lparr>queue = ?A, ntotal = 3, nmissing = 2, world = 2\<rparr>
           \<lparr>ntotal := ntotal \<lparr>queue = ?A, ntotal = 3, nmissing = 2, world = 2\<rparr> + 1,
            nmissing := nmissing \<lparr>queue = ?A, ntotal = 3, nmissing = 2, world = 2\<rparr> + 1,
            world := 4\<rparr> =
        \<lparr>queue = ?A, ntotal = 4, nmissing = 3, world = 4::nat\<rparr>"
    by simp
  let ?pool = "fresh_pool 1 [''A/noarch'']"
  let ?a = "\<lparr>pa_refcnt = 1, pa_strings = [''A/noarch'']\<rparr>"
  let ?loc = "\<lparr>queue = rpool_queue ?pool, ntotal = 0, nmissing = 0, world = 0::nat\<rparr>"
  let ?p = "''A/noarch/pkg-index.plist''"
  have t: "repos_array ?pool = Some ?a" "\<not> repolist_initialized ?pool" "0 < pa_refcnt ?a"
    "pa_strings ?a = [] @ ''A/noarch'' # []"
    by (simp_all add: fresh_pool_def)
  have nd: "\<not> duprepo (queue ?loc) ''A/noarch''" "world ?loc = 0"
    by (simp_all add: fresh_pool_def)
  have ar: "check_repo_arch ''x86_64'' ''A/noarch''"
    by (simp add: check_repo_arch_def)
  have I: "\<exists>s'. xbps_repository_pool_init (host_ok\<lparr>prop_array_iterator := (\<lambda>w. (Inl 12, w))\<rparr>)
      ?pool 0 = Some (12, s', 0)"
    using failures_are_not_conflated [OF t, where w = 0 and e = 12 and ?w0.0 = 0
        and env = "host_ok\<lparr>prop_array_iterator := (\<lambda>w. (Inl 12, w))\<rparr>"]
    by (simp add: host_ok_def)
  have P: "\<exists>s'. xbps_repository_pool_init host_plist_enoent ?pool 0 = Some (ENOENT, s', 0)"
  proof -
    have "prop_array_iterator host_plist_enoent 0 = (Inr (), 0)"
      "pool_loop host_plist_enoent [] ?loc = Next ?loc"
      "check_repo_arch (un_machine host_plist_enoent) ''A/noarch''"
      "xbps_pkg_index_plist host_plist_enoent ''A/noarch'' (world ?loc) = (Inl ENOENT, 0)"
      using ar by (simp_all add: host_plist_enoent_def host_ok_def)
    then show ?thesis
      using nd(1) failures_are_not_conflated [OF t, where w = 0 and e = ENOENT and ?w0.0 = 0
          and env = host_plist_enoent and it = "()" and st = ?loc and ?w1.0 = 0]
      by blast
  qed
  have M1: "\<exists>s'. xbps_repository_pool_init (host_ok\<lparr>malloc := (\<lambda>w. (Inl 12, w))\<rparr>) ?pool 0 =
      Some (12, s', 0)" (is "\<exists>s'. xbps_repository_pool_init ?env _ _ = _")
  proof -
    have "prop_array_iterator ?env 0 = (Inr (), 0)"
      "pool_loop ?env [] ?loc = Next ?loc"
      "check_repo_arch (un_machine ?env) ''A/noarch''"
      "xbps_pkg_index_plist ?env ''A/noarch'' (world ?loc) = (Inr ?p, 0)"
      "sync_remote_repo ?env ?p ''A/noarch'' 0 = (0, 0)"
      "malloc ?env 0 = (Inl 12, 0)"
      using ar by (simp_all add: host_ok_def sync_remote_repo_def fresh_pool_def)
    then show ?thesis
      using nd(1) failures_are_not_conflated [OF t, where w = 0 and e = 12 and ?w0.0 = 0
          and env = ?env and it = "()" and st = ?loc and plist = ?p and ?w1.0 = 0
          and ?w2.0 = 0 and ?w3.0 = 0]
      by blast
  qed
  have M2: "\<exists>s'. xbps_repository_pool_init
      (host_ok\<lparr>malloc := (\<lambda>w. if w = 0 then (Inr 0, 1) else (Inl 12, w))\<rparr>) ?pool 0 =
      Some (12, s', 1)" (is "\<exists>s'. xbps_repository_pool_init ?env _ _ = _")
  proof -
    have "prop_array_iterator ?env 0 = (Inr (), 0)"
      "pool_loop ?env [] ?loc = Next ?loc"
      "check_repo_arch (un_machine ?env) ''A/noarch''"
      "xbps_pkg_index_plist ?env ''A/noarch'' (world ?loc) = (Inr ?p, 0)"
      "sync_remote_repo ?env ?p ''A/noarch'' 0 = (0, 0)"
      "malloc ?env 0 = (Inr 0, 1)" "malloc ?env 1 = (Inl 12, 1)"
      using ar by (simp_all add: host_ok_def sync_remote_repo_def fresh_pool_def)
    then show ?thesis
      using nd(1) failures_are_not_conflated [OF t, where w = 0 and e = 12 and ?w0.0 = 0
          and env = ?env and it = "()" and st = ?loc and plist = ?p and ?w1.0 = 0
          and ?w2.0 = 0 and a = 0 and ?w3.0 = 1 and ?w4.0 = 1]
      by blast
  qed
  have S: "\<exists>s'. xbps_repository_pool_init
      (host_ok\<lparr>prop_string_cstring := (\<lambda>uri w. (Inl 12, w))\<rparr>) ?pool 0 = Some (12, s', 2)"
    (is "\<exists>s'. xbps_repository_pool_init ?env _ _ = _")
  proof -
    have "prop_array_iterator ?env 0 = (Inr (), 0)"
      "pool_loop ?env [] ?loc = Next ?loc"
      "check_repo_arch (un_machine ?env) ''A/noarch''"
      "xbps_pkg_index_plist ?env ''A/noarch'' (world ?loc) = (Inr ?p, 0)"
      "sync_remote_repo ?env ?p ''A/noarch'' 0 = (0, 0)"
      "malloc ?env 0 = (Inr 0, 1)" "malloc ?env 1 = (Inr 1, 2)"
      "prop_string_cstring ?env ''A/noarch'' 2 = (Inl 12, 2)"
      using ar by (simp_all add: host_ok_def sync_remote_repo_def fresh_pool_def)
    then show ?thesis
      using nd(1) failures_are_not_conflated [OF t, where w = 0 and e = 12 and ?w0.0 = 0
          and env = ?env and it = "()" and st = ?loc and plist = ?p and ?w1.0 = 0
          and ?w2.0 = 0 and a = 0 and ?w3.0 = 1 and b = 1 and ?w4.0 = 2 and ?w5.0 = 2]
      by blast
  qed
  from X [unfolded arr st0 e1] R [unfolded arr st0 e2] M [unfolded arr st0 e3] C
    I P M1 M2 S
  show ?thesis by blast

qed

subsection \<open>The traversal\<close>

text \<open>Reading a node of a queue whose nodes have distinct addresses.\<close>

lemma node_at_append:
  "distinct (map rp_addr (kept @ n # ns)) \<Longrightarrow> node_at (kept @ n # ns) (rp_addr n) = Some n"
  by (induction kept) auto

lemma sqe_next_append:
  "distinct (map rp_addr (kept @ n # ns)) \<Longrightarrow>
   sqe_next (kept @ n # ns) (rp_addr n) = map_option rp_addr (SIMPLEQ_FIRST ns)"
  by (induction kept) auto

lemma SIMPLEQ_REMOVE_append:
  "distinct (map rp_addr (kept @ n # ns)) \<Longrightarrow>
   SIMPLEQ_REMOVE (kept @ n # ns) (rp_addr n) = kept @ ns"
  by (induction kept) auto

text \<open>
  The traversal is the walk over the nodes linked at the start, if the callback only
  ever unlinks the node it is called on: the pointer to the next node was read before
  the call, and that node is still linked after it.
\<close>

lemma foreach_safe_walk:
  assumes "keeps_or_unlinks fn"
  shows "rpool_queue s = kept @ rest \<Longrightarrow> distinct (map rp_addr (rpool_queue s)) \<Longrightarrow>
         foreach_safe fn (map_option rp_addr (SIMPLEQ_FIRST rest)) rv log arg s =
           Some (walk fn rest rv log arg s)"
proof (induction rest arbitrary: kept rv log arg s)
  case Nil
  then show ?case by (simp add: foreach_safe.simps SIMPLEQ_FIRST_def)
next
  case (Cons n ns)
  obtain rv' d arg' s' where f: "fn n arg s = (rv', d, arg', s')"
    by (cases "fn n arg s")
  have na: "node_at (rpool_queue s) (rp_addr n) = Some n"
    and nx: "sqe_next (rpool_queue s) (rp_addr n) = map_option rp_addr (SIMPLEQ_FIRST ns)"
    using Cons.prems by (simp_all add: node_at_append sqe_next_append)
  show ?case
  proof (cases "rv' \<noteq> 0 \<or> d")
    case True
    then show ?thesis
      using f na nx
      by (subst foreach_safe.simps) (simp add: SIMPLEQ_FIRST_def)
  next
    case False
    from assms f have "rpool_queue s' = rpool_queue s \<or>
        rpool_queue s' = SIMPLEQ_REMOVE (rpool_queue s) (rp_addr n)"
      unfolding keeps_or_unlinks_def by (metis snd_conv)
    then have "(rpool_queue s' = (kept @ [n]) @ ns \<or> rpool_queue s' = kept @ ns) \<and>
        distinct (map rp_addr (rpool_queue s'))"
      using Cons.prems by (auto simp: SIMPLEQ_REMOVE_append)
    then have "foreach_safe fn (map_option rp_addr (SIMPLEQ_FIRST ns)) rv'
        (log @ [(n, rv', d)]) arg' s' = Some (walk fn ns rv' (log @ [(n, rv', d)]) arg' s')"
      using Cons.IH by blast
    then show ?thesis
      using f na nx False
      by (subst foreach_safe.simps) (simp add: SIMPLEQ_FIRST_def)
  qed
qed

text \<open>
  The log of the walk: the nodes visited are the first nodes of the list, every visit
  but the last is one after which the traversal goes on, and the value returned is the
  status of the last visit.
\<close>

lemma walk_log:
  "walk fn rest rv log arg s = (rv', log', arg', s') \<Longrightarrow>
   \<exists>new. log' = log @ new \<and> map fst new = take (length new) rest \<and>
     (\<forall>v \<in> set (butlast new). goes_on v) \<and>
     (new = [] \<longrightarrow> rest = [] \<and> rv' = rv) \<and>
     (new \<noteq> [] \<longrightarrow> rv' = fst (snd (last new)) \<and>
        (goes_on (last new) \<longrightarrow> length new = length rest))"
proof (induction rest arbitrary: rv log arg s)
  case Nil
  then show ?case by simp
next
  case (Cons n ns)
  obtain r d a1 s1 where f: "fn n arg s = (r, d, a1, s1)"
    by (cases "fn n arg s")
  show ?case
  proof (cases "r \<noteq> 0 \<or> d")
    case True
    with Cons.prems f have "log' = log @ [(n, r, d)]" "rv' = r" by auto
    with True show ?thesis by (auto simp: goes_on_def)
  next
    case False
    with Cons.prems f have "walk fn ns r (log @ [(n, r, d)]) a1 s1 = (rv', log', arg', s')"
      by simp
    from Cons.IH [OF this] obtain new where
      n: "log' = (log @ [(n, r, d)]) @ new" "map fst new = take (length new) ns"
         "\<forall>v \<in> set (butlast new). goes_on v"
         "new = [] \<longrightarrow> ns = [] \<and> rv' = r"
         "new \<noteq> [] \<longrightarrow> rv' = fst (snd (last new)) \<and>
            (goes_on (last new) \<longrightarrow> length new = length ns)"
      by blast
    have g: "goes_on (n, r, d)" using False by (simp add: goes_on_def)
    show ?thesis
      using n g
      by (intro exI [of _ "(n, r, d) # new"]) (auto simp: goes_on_def)
  qed
qed


text \<open>The same facts about the log for any callback, if the traversal returns.\<close>

lemma foreach_safe_log:
  assumes "foreach_safe fn var rv log arg s = Some y"
  shows "\<exists>new. fst (snd y) = log @ new \<and>
     (\<forall>v \<in> set (butlast new). goes_on v) \<and>
     (new = [] \<longrightarrow> fst y = rv) \<and>
     (new \<noteq> [] \<longrightarrow> fst y = fst (snd (last new)))"
proof (rule foreach_safe.raw_induct
    [where P = "\<lambda>fn var rv log arg s y. \<exists>new. fst (snd y) = log @ new \<and>
       (\<forall>v \<in> set (butlast new). goes_on v) \<and>
       (new = [] \<longrightarrow> fst y = rv) \<and>
       (new \<noteq> [] \<longrightarrow> fst y = fst (snd (last new)))", OF _ assms], goal_cases)
  case (1 rec fn var rv log arg s y)
  show ?case
  proof (cases var)
    case None
    with 1(2) show ?thesis by auto
  next
    case (Some a)
    with 1(2) obtain n where na: "node_at (rpool_queue s) a = Some n"
      by (auto split: option.splits)
    obtain r d a1 s1 where f: "fn n arg s = (r, d, a1, s1)"
      by (cases "fn n arg s")
    show ?thesis
    proof (cases "r \<noteq> 0 \<or> d")
      case True
      with 1(2) Some na f have "y = (r, log @ [(n, r, d)], a1, s1)" by auto
      then show ?thesis by (intro exI [of _ "[(n, r, d)]"]) simp
    next
      case False
      with 1(2) Some na f have
        "rec fn (sqe_next (rpool_queue s) a) r (log @ [(n, r, d)]) a1 s1 = Some y"
        by auto
      from 1(1) [OF this] obtain new where
        n: "fst (snd y) = (log @ [(n, r, d)]) @ new" "\<forall>v \<in> set (butlast new). goes_on v"
           "new = [] \<longrightarrow> fst y = r" "new \<noteq> [] \<longrightarrow> fst y = fst (snd (last new))"
        by blast
      have g: "goes_on (n, r, d)" using False by (simp add: goes_on_def)
      show ?thesis
        using n g by (intro exI [of _ "(n, r, d) # new"]) auto
    qed
  qed
qed

lemma keeps_queue_keeps_or_unlinks: "keeps_queue fn \<Longrightarrow> keeps_or_unlinks fn"
  by (simp add: keeps_queue_def keeps_or_unlinks_def)

lemma foreach_of_init:
  assumes "xbps_repository_pool_init env s w = Some (0, s1, w1)"
  shows "xbps_repository_pool_foreach env fn arg s w =
           map_option (\<lambda>(rv, log, arg', s'). (rv, log, arg', s', w1))
             (foreach_safe fn (map_option rp_addr (SIMPLEQ_FIRST (rpool_queue s1))) 0 [] arg s1)"
  using assms by (auto simp: xbps_repository_pool_foreach_def split: option.splits)

text \<open>When the build fails, its error is returned and the callback is not called.\<close>

lemma foreach_of_failed_init:
  assumes "xbps_repository_pool_init env s w = Some (rv, s1, w1)" and "rv \<noteq> 0"
  shows "xbps_repository_pool_foreach env fn arg s w = Some (rv, [], arg, s1, w1)"
  using assms by (simp add: xbps_repository_pool_foreach_def)

text \<open>
  C7. Let the build at the start of \<open>xbps_repository_pool_foreach\<close> return 0. For every
  callback, if the function returns, every visit but the last was one after which the
  traversal goes on (status 0, \<open>done\<close> not set), so no node is visited after the
  callback returned another status or set \<open>done\<close>; the value returned is the status of
  the last visit, and 0 if no node was visited. For every callback that leaves the queue
  as it is, on a queue whose nodes have distinct addresses, the function does return;
  the nodes visited are the first nodes of the queue, in order, and if the traversal
  still goes on after the last visit, every node was visited (and the value is 0).
\<close>

theorem foreach_stops_at_first_stop:
  assumes "xbps_repository_pool_init env s w = Some (0, s1, w1)"
  shows "(\<forall>rv log arg' s' w'.
            xbps_repository_pool_foreach env fn arg s w = Some (rv, log, arg', s', w') \<longrightarrow>
              (\<forall>v \<in> set (butlast log). goes_on v) \<and>
              (log = [] \<longrightarrow> rv = 0) \<and>
              (log \<noteq> [] \<longrightarrow> rv = fst (snd (last log)))) \<and>
         (keeps_queue fn \<and> distinct (map rp_addr (rpool_queue s1)) \<longrightarrow>
            (\<exists>rv log arg' s'.
               xbps_repository_pool_foreach env fn arg s w = Some (rv, log, arg', s', w1) \<and>
               map fst log = take (length log) (rpool_queue s1) \<and>
               (\<forall>v \<in> set (butlast log). goes_on v) \<and>
               (log = [] \<longrightarrow> rpool_queue s1 = [] \<and> rv = 0) \<and>
               (log \<noteq> [] \<longrightarrow> rv = fst (snd (last log)) \<and>
                  (goes_on (last log) \<longrightarrow> length log = length (rpool_queue s1)))))"
proof (intro conjI allI impI)
  fix rv log arg' s' w'
  assume r: "xbps_repository_pool_foreach env fn arg s w = Some (rv, log, arg', s', w')"
  then have "foreach_safe fn (map_option rp_addr (SIMPLEQ_FIRST (rpool_queue s1))) 0 [] arg s1 =
      Some (rv, log, arg', s')"
    unfolding foreach_of_init [OF assms] by auto
  from foreach_safe_log [OF this]
  show "\<forall>v \<in> set (butlast log). goes_on v" "log = [] \<Longrightarrow> rv = 0"
    "log \<noteq> [] \<Longrightarrow> rv = fst (snd (last log))"
    by auto
next
  assume a: "keeps_queue fn \<and> distinct (map rp_addr (rpool_queue s1))"
  obtain rv log arg' s' where wk: "walk fn (rpool_queue s1) 0 [] arg s1 = (rv, log, arg', s')"
    by (cases "walk fn (rpool_queue s1) 0 [] arg s1")
  have "foreach_safe fn (map_option rp_addr (SIMPLEQ_FIRST (rpool_queue s1))) 0 [] arg s1 =
      Some (rv, log, arg', s')"
    using foreach_safe_walk [OF keeps_queue_keeps_or_unlinks, of fn s1 "[]" "rpool_queue s1" 0 "[]" arg]
      a wk by simp
  then have "xbps_repository_pool_foreach env fn arg s w = Some (rv, log, arg', s', w1)"
    unfolding foreach_of_init [OF assms] by simp
  with walk_log [OF wk]
  show "\<exists>rv log arg' s'.
               xbps_repository_pool_foreach env fn arg s w = Some (rv, log, arg', s', w1) \<and>
               map fst log = take (length log) (rpool_queue s1) \<and>
               (\<forall>v \<in> set (butlast log). goes_on v) \<and>
               (log = [] \<longrightarrow> rpool_queue s1 = [] \<and> rv = 0) \<and>
               (log \<noteq> [] \<longrightarrow> rv = fst (snd (last log)) \<and>
                  (goes_on (last log) \<longrightarrow> length log = length (rpool_queue s1)))"
    by auto
qed


lemma built_pool_init: "xbps_repository_pool_init host_ok built_pool 9 = Some (0, built_pool, 9)"
  by (simp add: xbps_repository_pool_init_def built_pool_def)

text \<open>
  C7 on the pool of A, B and C with a callback that sets \<open>done\<close> at B: two nodes are
  visited and the status the callback returned at B is the value of the function, be
  it 0 or 7; the traversal went on after the visit of A and not after that of B.
\<close>

theorem foreach_stops_at_first_stop_witness:
  "xbps_repository_pool_foreach host_ok (stop_at ''B/noarch'' 0) 0 built_pool 9 =
     Some (0, [(node 0 ''A/noarch'', 0, False), (node 2 ''B/noarch'', 0, True)], 2, built_pool, 9) \<and>
   xbps_repository_pool_foreach host_ok (stop_at ''B/noarch'' 7) 0 built_pool 9 =
     Some (7, [(node 0 ''A/noarch'', 0, False), (node 2 ''B/noarch'', 7, True)], 2, built_pool, 9) \<and>
   (\<exists>rv log arg' s'.
      xbps_repository_pool_foreach host_ok (stop_at ''B/noarch'' 7) 0 built_pool 9 =
        Some (rv, log, arg', s', 9) \<and>
      map fst log = take (length log) (rpool_queue built_pool) \<and>
      (\<forall>v \<in> set (butlast log). goes_on v) \<and> log \<noteq> [] \<and> rv = fst (snd (last log))) \<and>
   goes_on (node 0 ''A/noarch'', 0, False) \<and>
   \<not> goes_on (node 2 ''B/noarch'', 7, True)"
proof -
  have "foreach_safe (stop_at ''B/noarch'' 0)
      (map_option rp_addr (SIMPLEQ_FIRST (rpool_queue built_pool))) 0 [] 0 built_pool =
     Some (0, [(node 0 ''A/noarch'', 0, False), (node 2 ''B/noarch'', 0, True)], 2, built_pool)"
    by (simp add: foreach_safe.simps built_pool_def stop_at_def node_def SIMPLEQ_FIRST_def)
  then have run0: "xbps_repository_pool_foreach host_ok (stop_at ''B/noarch'' 0) 0 built_pool 9 =
     Some (0, [(node 0 ''A/noarch'', 0, False), (node 2 ''B/noarch'', 0, True)], 2, built_pool, 9)"
    by (simp add: foreach_of_init [OF built_pool_init])
  have "foreach_safe (stop_at ''B/noarch'' 7)
      (map_option rp_addr (SIMPLEQ_FIRST (rpool_queue built_pool))) 0 [] 0 built_pool =
     Some (7, [(node 0 ''A/noarch'', 0, False), (node 2 ''B/noarch'', 7, True)], 2, built_pool)"
    by (simp add: foreach_safe.simps built_pool_def stop_at_def node_def SIMPLEQ_FIRST_def)
  then have run7: "xbps_repository_pool_foreach host_ok (stop_at ''B/noarch'' 7) 0 built_pool 9 =
     Some (7, [(node 0 ''A/noarch'', 0, False), (node 2 ''B/noarch'', 7, True)], 2, built_pool, 9)"
    by (simp add: foreach_of_init [OF built_pool_init])
  have k: "keeps_queue (stop_at ''B/noarch'' 7) \<and> distinct (map rp_addr (rpool_queue built_pool))"
    by (simp add: keeps_queue_def stop_at_def built_pool_def node_def)
  from foreach_stops_at_first_stop [OF built_pool_init, of "stop_at ''B/noarch'' 7" 0] k
  have "\<exists>rv log arg' s'.
      xbps_repository_pool_foreach host_ok (stop_at ''B/noarch'' 7) 0 built_pool 9 =
        Some (rv, log, arg', s', 9) \<and>
      map fst log = take (length log) (rpool_queue built_pool) \<and>
      (\<forall>v \<in> set (butlast log). goes_on v) \<and>
      (log = [] \<longrightarrow> rpool_queue built_pool = [] \<and> rv = 0) \<and>
      (log \<noteq> [] \<longrightarrow> rv = fst (snd (last log)) \<and>
         (goes_on (last log) \<longrightarrow> length log = length (rpool_queue built_pool)))"
    by blast
  then have "\<exists>rv log arg' s'.
      xbps_repository_pool_foreach host_ok (stop_at ''B/noarch'' 7) 0 built_pool 9 =
        Some (rv, log, arg', s', 9) \<and>
      map fst log = take (length log) (rpool_queue built_pool) \<and>
      (\<forall>v \<in> set (butlast log). goes_on v) \<and> log \<noteq> [] \<and> rv = fst (snd (last log))"
    unfolding run7 by auto
  moreover
  from foreach_stops_at_first_stop
    [OF built_pool_init, of "stop_at ''B/noarch'' 7" 0, THEN conjunct1] run7
  have "\<forall>v \<in> set (butlast [(node 0 ''A/noarch'', 0, False), (node 2 ''B/noarch'', 7, True)]).
      goes_on v"
    by blast
  then have "goes_on (node 0 ''A/noarch'', 0, False)" by simp
  moreover have "\<not> goes_on (node 2 ''B/noarch'', 7, True)" by (simp add: goes_on_def)
  ultimately show ?thesis using run0 run7 by blast
qed

subsection \<open>Unlinking the visited node\<close>

lemma unlinks_current_keeps_or_unlinks: "unlinks_current fn \<Longrightarrow> keeps_or_unlinks fn"
  by (simp add: unlinks_current_def keeps_or_unlinks_def)

text \<open>A callback that unlinks every node it visits leaves the nodes it did not visit.\<close>

lemma walk_unlinks:
  assumes "unlinks_current fn"
  shows "rpool_queue s = rest \<Longrightarrow> distinct (map rp_addr rest) \<Longrightarrow>
         walk fn rest rv log arg s = (rv', log', arg', s') \<Longrightarrow>
         rpool_queue s' = drop (length log' - length log) rest"
proof (induction rest arbitrary: rv log arg s)
  case Nil
  then show ?case by simp
next
  case (Cons n ns)
  obtain r d a1 s1 where f: "fn n arg s = (r, d, a1, s1)"
    by (cases "fn n arg s")
  with assms have "rpool_queue s1 = SIMPLEQ_REMOVE (rpool_queue s) (rp_addr n)"
    unfolding unlinks_current_def by (metis snd_conv)
  with Cons.prems have q1: "rpool_queue s1 = ns" by simp
  show ?case
  proof (cases "r \<noteq> 0 \<or> d")
    case True
    with Cons.prems f q1 show ?thesis by auto
  next
    case False
    with Cons.prems f have w: "walk fn ns r (log @ [(n, r, d)]) a1 s1 = (rv', log', arg', s')"
      by simp
    from walk_log [OF w] obtain new where "log' = (log @ [(n, r, d)]) @ new" by blast
    then have "length log' - length log = Suc (length log' - length (log @ [(n, r, d)]))"
      by simp
    with Cons.IH [OF q1 _ w] Cons.prems show ?thesis by simp
  qed
qed

text \<open>
  C8. Let the build at the start of \<open>xbps_repository_pool_foreach\<close> return 0 and the
  nodes of the queue have distinct addresses. For every callback that, at each visit,
  unlinks the node it is visiting or leaves the queue as it is, the function returns,
  and the nodes visited are the first nodes of the queue as it was at the start, each
  once and in order: none is left out and none comes twice; if the traversal still goes
  on after the last visit, every node was visited. If the callback unlinks the node at
  every visit, the queue at the end holds the nodes that were not visited.
\<close>

theorem foreach_survives_unlinking:
  assumes "xbps_repository_pool_init env s w = Some (0, s1, w1)"
    and "distinct (map rp_addr (rpool_queue s1))"
    and "keeps_or_unlinks fn"
  shows "\<exists>rv log arg' s'.
           xbps_repository_pool_foreach env fn arg s w = Some (rv, log, arg', s', w1) \<and>
           map fst log = take (length log) (rpool_queue s1) \<and>
           (log = [] \<longrightarrow> rpool_queue s1 = []) \<and>
           (log \<noteq> [] \<and> goes_on (last log) \<longrightarrow> map fst log = rpool_queue s1) \<and>
           (unlinks_current fn \<longrightarrow> rpool_queue s' = drop (length log) (rpool_queue s1))"
proof -
  obtain rv log arg' s' where wk: "walk fn (rpool_queue s1) 0 [] arg s1 = (rv, log, arg', s')"
    by (cases "walk fn (rpool_queue s1) 0 [] arg s1")
  have "foreach_safe fn (map_option rp_addr (SIMPLEQ_FIRST (rpool_queue s1))) 0 [] arg s1 =
      Some (rv, log, arg', s')"
    using foreach_safe_walk [OF assms(3), of s1 "[]" "rpool_queue s1" 0 "[]" arg] assms(2) wk
    by simp
  then have run: "xbps_repository_pool_foreach env fn arg s w = Some (rv, log, arg', s', w1)"
    unfolding foreach_of_init [OF assms(1)] by simp
  from walk_log [OF wk] have
    l: "map fst log = take (length log) (rpool_queue s1)"
       "log = [] \<longrightarrow> rpool_queue s1 = []"
       "log \<noteq> [] \<and> goes_on (last log) \<longrightarrow> length log = length (rpool_queue s1)"
    by auto
  have u: "unlinks_current fn \<longrightarrow> rpool_queue s' = drop (length log) (rpool_queue s1)"
    using walk_unlinks [OF _ refl assms(2) wk] by auto
  from run l u show ?thesis by auto
qed

text \<open>
  C8 on the pool of A, B and C with the callback that unlinks every node it visits: A,
  B and C are visited, in this order, and the queue is empty at the end.
\<close>

theorem foreach_survives_unlinking_witness:
  "xbps_repository_pool_foreach host_ok unlink_visited 0 built_pool 9 =
     Some (0,
       [(node 0 ''A/noarch'', 0, False), (node 2 ''B/noarch'', 0, False),
        (node 4 ''C/noarch'', 0, False)],
       3, built_pool\<lparr>rpool_queue := []\<rparr>, 9) \<and>
   (\<exists>rv log arg' s'.
      xbps_repository_pool_foreach host_ok unlink_visited 0 built_pool 9 =
        Some (rv, log, arg', s', 9) \<and>
      map fst log = rpool_queue built_pool \<and> rpool_queue s' = [])"
proof -
  have "foreach_safe unlink_visited
      (map_option rp_addr (SIMPLEQ_FIRST (rpool_queue built_pool))) 0 [] 0 built_pool =
     Some (0,
       [(node 0 ''A/noarch'', 0, False), (node 2 ''B/noarch'', 0, False),
        (node 4 ''C/noarch'', 0, False)],
       3, built_pool\<lparr>rpool_queue := []\<rparr>)"
    by (simp add: foreach_safe.simps built_pool_def unlink_visited_def node_def SIMPLEQ_FIRST_def)
  then have run: "xbps_repository_pool_foreach host_ok unlink_visited 0 built_pool 9 =
     Some (0,
       [(node 0 ''A/noarch'', 0, False), (node 2 ''B/noarch'', 0, False),
        (node 4 ''C/noarch'', 0, False)],
       3, built_pool\<lparr>rpool_queue := []\<rparr>, 9)"
    by (simp add: foreach_of_init [OF built_pool_init])
  have d: "distinct (map rp_addr (rpool_queue built_pool))"
    by (simp add: built_pool_def node_def)
  have u: "unlinks_current unlink_visited"
    by (simp add: unlinks_current_def unlink_visited_def)
  from foreach_survives_unlinking
    [OF built_pool_init d unlinks_current_keeps_or_unlinks [OF u], of 0] u
  obtain rv log arg' s' where
    r: "xbps_repository_pool_foreach host_ok unlink_visited 0 built_pool 9 =
        Some (rv, log, arg', s', 9)"
    and p: "map fst log = take (length log) (rpool_queue built_pool)"
      "log \<noteq> [] \<and> goes_on (last log) \<longrightarrow> map fst log = rpool_queue built_pool"
      "rpool_queue s' = drop (length log) (rpool_queue built_pool)"
    by blast
  from r run have log: "log = [(node 0 ''A/noarch'', 0, False), (node 2 ''B/noarch'', 0, False),
        (node 4 ''C/noarch'', 0, False)]"
    by simp
  with p have "map fst log = rpool_queue built_pool \<and> rpool_queue s' = []"
    by (simp add: goes_on_def built_pool_def)
  with r run show ?thesis by blast
qed

subsection \<open>Duplicates and order\<close>

text \<open>\<open>duprepo\<close> finds a URI exactly if a node of the queue has it.\<close>

lemma duprepo_iff: "duprepo q u \<longleftrightarrow> u \<in> set (uris q)"
  by (induction q) (auto simp: uris_def)

lemma pool_step_dup: "duprepo (queue st) u \<Longrightarrow> pool_step env u st = Next st"
  by (simp add: pool_step_def)

lemma not_isl_fst: "\<not> isl (fst x) \<Longrightarrow> \<exists>v w'. x = (Inr v, w')"
  by (cases x; cases "fst x") auto

text \<open>With collaborators that succeed, a matching URI that is not registered is appended.\<close>

lemma pool_step_registers:
  assumes "always_succeed env" and "check_repo_arch (un_machine env) u"
    and "\<not> duprepo (queue st) u"
  shows "\<exists>a d w'. pool_step env u st =
           Next (st\<lparr>ntotal := ntotal st + 1,
                    queue := queue st @ [\<lparr>rp_addr = a, rpi = \<lparr>rpi_uri = u, rpi_repod = d\<rparr>\<rparr>],
                    world := w'\<rparr>)"
proof -
  from assms(1) obtain plist w1 where p: "xbps_pkg_index_plist env u (world st) = (Inr plist, w1)"
    using not_isl_fst [of "xbps_pkg_index_plist env u (world st)"]
    by (auto simp: always_succeed_def)
  obtain r w2 where s: "sync_remote_repo env plist u w1 = (r, w2)" by force
  with assms(1) have r: "r \<noteq> - 1"
    by (metis always_succeed_def fst_conv)
  from assms(1) obtain a w3 where m1: "malloc env w2 = (Inr a, w3)"
    using not_isl_fst [of "malloc env w2"] by (auto simp: always_succeed_def)
  from assms(1) obtain b w4 where m2: "malloc env w3 = (Inr b, w4)"
    using not_isl_fst [of "malloc env w3"] by (auto simp: always_succeed_def)
  from assms(1) obtain c w5 where c: "prop_string_cstring env u w4 = (Inr c, w5)"
    using not_isl_fst [of "prop_string_cstring env u w4"] by (auto simp: always_succeed_def)
  from assms(1) obtain d w6 where
    i: "prop_dictionary_internalize_from_zfile env plist w5 = (Inr d, w6)"
    using not_isl_fst [of "prop_dictionary_internalize_from_zfile env plist w5"]
    by (auto simp: always_succeed_def)
  have "pool_step env u st =
      Next (st\<lparr>ntotal := ntotal st + 1,
               queue := queue st @ [\<lparr>rp_addr = a, rpi = \<lparr>rpi_uri = u, rpi_repod = d\<rparr>\<rparr>],
               world := w6\<rparr>)"
    using assms(2,3) p s r m1 m2 c i
    by (simp add: pool_step_def SIMPLEQ_INSERT_TAIL_def)
  then show ?thesis by blast
qed

text \<open>No step, loop or call makes two nodes of the queue share a URI.\<close>

lemma pool_step_distinct:
  assumes "distinct (uris (queue st))"
  shows "pool_step env u st = Next st' \<Longrightarrow> distinct (uris (queue st'))"
    and "pool_step env u st = Goto_out rv st' \<Longrightarrow> distinct (uris (queue st'))"
  using assms pool_step_Next [of env u st st'] pool_step_Goto_out [of env u st rv st']
  by (auto simp: duprepo_iff uris_def)

lemma pool_loop_distinct:
  "distinct (uris (queue st)) \<Longrightarrow>
   pool_loop env us st = Next st' \<or> pool_loop env us st = Goto_out rv st' \<Longrightarrow>
   distinct (uris (queue st'))"
proof (induction us arbitrary: st)
  case Nil
  then show ?case by simp
next
  case (Cons u us)
  show ?case
  proof (cases "pool_step env u st")
    case (Next st1)
    with Cons.prems pool_step_distinct(1) [OF Cons.prems(1) Next]
    show ?thesis using Cons.IH [of st1] by simp
  next
    case (Goto_out rv1 st1)
    with Cons.prems pool_step_distinct(2) [OF Cons.prems(1) Goto_out]
    show ?thesis by simp
  qed
qed

lemma pool_out_distinct:
  "distinct (uris (rpool_queue t)) \<Longrightarrow> pool_out r t v = (r', t', v') \<Longrightarrow>
   distinct (uris (rpool_queue t'))"
  by (auto simp: pool_out_def xbps_repository_pool_release_def release_loop_empty uris_def
      split: if_splits)

lemma init_distinct:
  assumes "xbps_repository_pool_init env s w = Some (rv, s', w')"
    and "distinct (uris (rpool_queue s))"
  shows "distinct (uris (rpool_queue s'))"
proof (cases "repos_array s")
  case None
  with assms show ?thesis by (simp add: xbps_repository_pool_init_def)
next
  case (Some arr)
  show ?thesis
  proof (cases "repolist_initialized s \<or> pa_strings arr = []")
    case True
    with assms Some show ?thesis
      by (auto simp: xbps_repository_pool_init_def split: if_splits)
  next
    case False
    with assms Some have live: "0 < pa_refcnt arr"
      by (auto simp: xbps_repository_pool_init_def split: if_splits)
    obtain r w0 where it: "prop_array_iterator env w = (r, w0)"
      by (cases "prop_array_iterator env w")
    show ?thesis
    proof (cases r)
      case (Inl e)
      with assms Some False live it have "pool_out e s w0 = (rv, s', w')"
        by (auto simp: xbps_repository_pool_init_def)
      from pool_out_distinct [OF assms(2) this] show ?thesis .
    next
      case (Inr i)
      let ?st0 = "\<lparr>queue = rpool_queue s, ntotal = 0, nmissing = 0, world = w0\<rparr>"
      have d0: "distinct (uris (queue ?st0))" using assms(2) by simp
      show ?thesis
      proof (cases "pool_loop env (pa_strings arr) ?st0")
        case (Next st)
        from pool_loop_distinct [OF d0, where env = env and us = "pa_strings arr" and st' = st] Next
        have d: "distinct (uris (queue st))" by simp
        from assms Some False live it Inr Next
        have "pool_out ENOTSUP (s\<lparr>rpool_queue := queue st\<rparr>) (world st) = (rv, s', w') \<or>
            pool_out 0 (s\<lparr>rpool_queue := queue st, repolist_initialized := True,
              repos_array := Some (arr\<lparr>pa_refcnt := pa_refcnt arr - 1\<rparr>)\<rparr>) (world st) =
              (rv, s', w')"
          by (auto simp: xbps_repository_pool_init_def split: if_splits)
        then show ?thesis
          using d pool_out_distinct [of "s\<lparr>rpool_queue := queue st\<rparr>" ENOTSUP "world st" rv s' w']
            pool_out_distinct [of "s\<lparr>rpool_queue := queue st, repolist_initialized := True,
              repos_array := Some (arr\<lparr>pa_refcnt := pa_refcnt arr - 1\<rparr>)\<rparr>" 0 "world st" rv s' w']
          by auto
      next
        case (Goto_out e st)
        from pool_loop_distinct [OF d0, where env = env and us = "pa_strings arr" and st' = st
            and rv = e] Goto_out
        have d: "distinct (uris (queue st))" by simp
        from assms Some False live it Inr Goto_out
        have "pool_out e (s\<lparr>rpool_queue := queue st\<rparr>) (world st) = (rv, s', w')"
          by (auto simp: xbps_repository_pool_init_def)
        then show ?thesis
          using d pool_out_distinct [of "s\<lparr>rpool_queue := queue st\<rparr>" e "world st" rv s' w']
          by auto
      qed
    qed
  qed
qed

text \<open>A callback that never stops is called on every node of the walk.\<close>

lemma walk_never_stops:
  assumes "never_stops fn"
  shows "walk fn rest rv log arg s = (rv', log', arg', s') \<Longrightarrow>
         map fst log' = map fst log @ rest \<and> (rest \<noteq> [] \<longrightarrow> rv' = 0)"
proof (induction rest arbitrary: rv log arg s)
  case Nil
  then show ?case by simp
next
  case (Cons n ns)
  obtain r d a1 s1 where f: "fn n arg s = (r, d, a1, s1)"
    by (cases "fn n arg s")
  with assms have c: "r = 0" "\<not> d"
    unfolding never_stops_def by (metis fst_conv snd_conv)+
  with Cons.prems f have w: "walk fn ns 0 (log @ [(n, 0, False)]) a1 s1 = (rv', log', arg', s')"
    by simp
  from Cons.IH [OF w] have "map fst log' = map fst log @ n # ns" "ns \<noteq> [] \<longrightarrow> rv' = 0"
    by auto
  moreover have "ns = [] \<longrightarrow> rv' = 0" using w by auto
  ultimately show ?case by auto
qed


text \<open>The result of the call when the loop ends with a node appended.\<close>

lemma init_success:
  assumes "repos_array s = Some arr" and "\<not> repolist_initialized s" and "0 < pa_refcnt arr"
    and "pa_strings arr \<noteq> []"
    and "prop_array_iterator env w = (Inr it, w0)"
    and "pool_loop env (pa_strings arr)
           \<lparr>queue = rpool_queue s, ntotal = 0, nmissing = 0, world = w0\<rparr> = Next st"
    and "ntotal st - nmissing st \<noteq> 0"
  shows "xbps_repository_pool_init env s w =
           Some (0, s\<lparr>rpool_queue := queue st, repolist_initialized := True,
                       repos_array := Some (arr\<lparr>pa_refcnt := pa_refcnt arr - 1\<rparr>)\<rparr>,
                 world st)"
  using assms by (simp add: xbps_repository_pool_init_def pool_out_def)

text \<open>
  C5. The pool is empty and not initialized, the array is alive, the collaborators
  succeed on every call, and A and B are different URIs of a matching architecture.
  \<^item> For the array [A, B, A] the loop ends with \<open>ntotal\<close> = 2 and \<open>nmissing\<close> = 0 (the
    second A is skipped before it is counted), and the call returns 0 with a queue of
    two nodes, of A and of B in this order.
  \<^item> For the array [A, B, C], with C a third matching URI, the call returns 0 with a
    queue of three nodes, of A, B and C in this order; and
    \<open>xbps_repository_pool_foreach\<close>, with a callback that never stops and leaves the queue
    as it is, visits the nodes of A, B and C in this order (the nodes have distinct
    addresses, as allocations that are alive do).
  \<^item> Whatever the collaborators do, a call on a queue in which no two nodes share a
    URI returns such a queue.
\<close>

theorem registry_is_deduplicated_and_ordered:
  assumes ok: "always_succeed (env :: ('w, 'd) collaborators)"
    and fresh: "rpool_queue s = []" "\<not> repolist_initialized s" "repos_array s = Some arr"
      "0 < pa_refcnt arr"
    and elig: "check_repo_arch (un_machine env) A" "check_repo_arch (un_machine env) B"
    and ab: "A \<noteq> B"
  shows
    "(pa_strings arr = [A, B, A] \<longrightarrow>
        (\<exists>it w0 st.
           prop_array_iterator env w = (Inr it, w0) \<and>
           pool_loop env [A, B, A] \<lparr>queue = [], ntotal = 0, nmissing = 0, world = w0\<rparr> =
             Next st \<and>
           ntotal st = 2 \<and> nmissing st = 0 \<and> uris (queue st) = [A, B] \<and>
           (\<exists>s' w'. xbps_repository_pool_init env s w = Some (0, s', w') \<and>
              rpool_queue s' = queue st))) \<and>
     (pa_strings arr = [A, B, C] \<and> check_repo_arch (un_machine env) C \<and> A \<noteq> C \<and> B \<noteq> C \<longrightarrow>
        (\<exists>s1 w1.
           xbps_repository_pool_init env s w = Some (0, s1, w1) \<and>
           uris (rpool_queue s1) = [A, B, C] \<and>
           (distinct (map rp_addr (rpool_queue s1)) \<and> keeps_queue fn \<and> never_stops fn \<longrightarrow>
              (\<exists>log arg' s'.
                 xbps_repository_pool_foreach env fn arg s w = Some (0, log, arg', s', w1) \<and>
                 uris (map fst log) = [A, B, C])))) \<and>
     (\<forall>(env' :: ('w, 'd) collaborators) s0 w0 rv s' w'.
        distinct (uris (rpool_queue s0)) \<and>
        xbps_repository_pool_init env' s0 w0 = Some (rv, s', w') \<longrightarrow>
          distinct (uris (rpool_queue s')))"
proof -
  from ok obtain it w0 where it: "prop_array_iterator env w = (Inr it, w0)"
    using not_isl_fst [of "prop_array_iterator env w"] by (auto simp: always_succeed_def)
  let ?st0 = "\<lparr>queue = [], ntotal = 0, nmissing = 0, world = w0\<rparr>"
  from pool_step_registers [OF ok elig(1), of ?st0] obtain a1 d1 w1 where
    "pool_step env A ?st0 =
       Next (?st0\<lparr>ntotal := ntotal ?st0 + 1,
          queue := queue ?st0 @ [\<lparr>rp_addr = a1, rpi = \<lparr>rpi_uri = A, rpi_repod = d1\<rparr>\<rparr>],
          world := w1\<rparr>)"
    by auto
  then have s1: "pool_step env A ?st0 =
      Next \<lparr>queue = [\<lparr>rp_addr = a1, rpi = \<lparr>rpi_uri = A, rpi_repod = d1\<rparr>\<rparr>],
            ntotal = 1, nmissing = 0, world = w1\<rparr>" (is "_ = Next ?st1")
    by simp
  have "\<not> duprepo (queue ?st1) B" using ab by simp
  from pool_step_registers [OF ok elig(2) this] obtain a2 d2 w2 where
    "pool_step env B ?st1 =
       Next (?st1\<lparr>ntotal := ntotal ?st1 + 1,
          queue := queue ?st1 @ [\<lparr>rp_addr = a2, rpi = \<lparr>rpi_uri = B, rpi_repod = d2\<rparr>\<rparr>],
          world := w2\<rparr>)"
    by auto
  then have s2: "pool_step env B ?st1 =
      Next \<lparr>queue = [\<lparr>rp_addr = a1, rpi = \<lparr>rpi_uri = A, rpi_repod = d1\<rparr>\<rparr>,
                     \<lparr>rp_addr = a2, rpi = \<lparr>rpi_uri = B, rpi_repod = d2\<rparr>\<rparr>],
            ntotal = 2, nmissing = 0, world = w2\<rparr>" (is "_ = Next ?st2")
    by simp
  have aba: "pool_loop env [A, B, A] ?st0 = Next ?st2"
    using s1 s2 by (simp add: pool_step_dup)
  have first: "pa_strings arr = [A, B, A] \<longrightarrow>
        (\<exists>it w0 st.
           prop_array_iterator env w = (Inr it, w0) \<and>
           pool_loop env [A, B, A] \<lparr>queue = [], ntotal = 0, nmissing = 0, world = w0\<rparr> =
             Next st \<and>
           ntotal st = 2 \<and> nmissing st = 0 \<and> uris (queue st) = [A, B] \<and>
           (\<exists>s' w'. xbps_repository_pool_init env s w = Some (0, s', w') \<and>
              rpool_queue s' = queue st))"
  proof
    assume cfg: "pa_strings arr = [A, B, A]"
    have "xbps_repository_pool_init env s w =
        Some (0, s\<lparr>rpool_queue := queue ?st2, repolist_initialized := True,
                    repos_array := Some (arr\<lparr>pa_refcnt := pa_refcnt arr - 1\<rparr>)\<rparr>,
              world ?st2)"
      using aba cfg fresh(1) by (intro init_success [OF fresh(3,2,4) _ it]) simp_all
    with it aba show "\<exists>it w0 st.
           prop_array_iterator env w = (Inr it, w0) \<and>
           pool_loop env [A, B, A] \<lparr>queue = [], ntotal = 0, nmissing = 0, world = w0\<rparr> =
             Next st \<and>
           ntotal st = 2 \<and> nmissing st = 0 \<and> uris (queue st) = [A, B] \<and>
           (\<exists>s' w'. xbps_repository_pool_init env s w = Some (0, s', w') \<and>
              rpool_queue s' = queue st)"
      by (intro exI [of _ it] exI [of _ w0] exI [of _ ?st2]) (simp add: uris_def)
  qed
  have second: "pa_strings arr = [A, B, C] \<and> check_repo_arch (un_machine env) C \<and>
      A \<noteq> C \<and> B \<noteq> C \<longrightarrow>
        (\<exists>s1 w1.
           xbps_repository_pool_init env s w = Some (0, s1, w1) \<and>
           uris (rpool_queue s1) = [A, B, C] \<and>
           (distinct (map rp_addr (rpool_queue s1)) \<and> keeps_queue fn \<and> never_stops fn \<longrightarrow>
              (\<exists>log arg' s'.
                 xbps_repository_pool_foreach env fn arg s w = Some (0, log, arg', s', w1) \<and>
                 uris (map fst log) = [A, B, C])))"
  proof
    assume c: "pa_strings arr = [A, B, C] \<and> check_repo_arch (un_machine env) C \<and>
      A \<noteq> C \<and> B \<noteq> C"
    then have "\<not> duprepo (queue ?st2) C" by auto
    from pool_step_registers [OF ok _ this] c obtain a3 d3 w3 where
      "pool_step env C ?st2 =
         Next (?st2\<lparr>ntotal := ntotal ?st2 + 1,
            queue := queue ?st2 @ [\<lparr>rp_addr = a3, rpi = \<lparr>rpi_uri = C, rpi_repod = d3\<rparr>\<rparr>],
            world := w3\<rparr>)"
      by auto
    then have s3: "pool_step env C ?st2 =
        Next \<lparr>queue = [\<lparr>rp_addr = a1, rpi = \<lparr>rpi_uri = A, rpi_repod = d1\<rparr>\<rparr>,
                       \<lparr>rp_addr = a2, rpi = \<lparr>rpi_uri = B, rpi_repod = d2\<rparr>\<rparr>,
                       \<lparr>rp_addr = a3, rpi = \<lparr>rpi_uri = C, rpi_repod = d3\<rparr>\<rparr>],
              ntotal = 3, nmissing = 0, world = w3\<rparr>" (is "_ = Next ?st3")
      by simp
    have abc: "pool_loop env [A, B, C] ?st0 = Next ?st3"
      using s1 s2 s3 by simp
    let ?s1 = "s\<lparr>rpool_queue := queue ?st3, repolist_initialized := True,
                    repos_array := Some (arr\<lparr>pa_refcnt := pa_refcnt arr - 1\<rparr>)\<rparr>"
    have init: "xbps_repository_pool_init env s w = Some (0, ?s1, world ?st3)"
      using abc c fresh(1) by (intro init_success [OF fresh(3,2,4) _ it]) simp_all
    have walk: "\<exists>log arg' s'.
        xbps_repository_pool_foreach env fn arg s w = Some (0, log, arg', s', world ?st3) \<and>
        uris (map fst log) = [A, B, C]"
      if h: "distinct (map rp_addr (rpool_queue ?s1)) \<and> keeps_queue fn \<and> never_stops fn"
    proof -
      obtain rv log arg' s' where wk: "walk fn (rpool_queue ?s1) 0 [] arg ?s1 = (rv, log, arg', s')"
        by (cases "walk fn (rpool_queue ?s1) 0 [] arg ?s1")
      from walk_never_stops [OF _ wk] h have l: "map fst log = rpool_queue ?s1" "rv = 0"
        by auto
      have "foreach_safe fn (map_option rp_addr (SIMPLEQ_FIRST (rpool_queue ?s1))) 0 [] arg ?s1 =
          Some (rv, log, arg', s')"
        using foreach_safe_walk [OF keeps_queue_keeps_or_unlinks,
            of fn ?s1 "[]" "rpool_queue ?s1" 0 "[]" arg] h wk
        by simp
      then have "xbps_repository_pool_foreach env fn arg s w =
          Some (rv, log, arg', s', world ?st3)"
        unfolding foreach_of_init [OF init] by simp
      with l show ?thesis by (auto simp: uris_def)
    qed
    show "\<exists>s1 w1.
           xbps_repository_pool_init env s w = Some (0, s1, w1) \<and>
           uris (rpool_queue s1) = [A, B, C] \<and>
           (distinct (map rp_addr (rpool_queue s1)) \<and> keeps_queue fn \<and> never_stops fn \<longrightarrow>
              (\<exists>log arg' s'.
                 xbps_repository_pool_foreach env fn arg s w = Some (0, log, arg', s', w1) \<and>
                 uris (map fst log) = [A, B, C]))"
      using init walk
      by (intro exI [of _ ?s1] exI [of _ "world ?st3"]) (simp add: uris_def)
  qed
  have third: "\<forall>(env' :: ('w, 'd) collaborators) s0 w0 rv s' w'.
        distinct (uris (rpool_queue s0)) \<and>
        xbps_repository_pool_init env' s0 w0 = Some (rv, s', w') \<longrightarrow>
          distinct (uris (rpool_queue s'))"
  proof (intro allI impI)
    fix env' :: "('w, 'd) collaborators" and s0 w0 rv s' w'
    assume "distinct (uris (rpool_queue s0)) \<and>
        xbps_repository_pool_init env' s0 w0 = Some (rv, s', w')"
    then show "distinct (uris (rpool_queue s'))"
      using init_distinct [of env' s0 w0 rv s' w'] by simp
  qed
  from first second third show ?thesis by blast
qed


text \<open>
  C5 on the x86_64 host where every collaborator succeeds, for the arrays
  [A/noarch, B/x86_64, A/noarch] and [A/noarch, B/x86_64, C/noarch]; and the queue that
  the build stopped by EIO leaves has no URI twice.
\<close>

theorem registry_is_deduplicated_and_ordered_witness:
  "always_succeed host_ok \<and>
   xbps_repository_pool_init host_ok (fresh_pool 1 [''A/noarch'', ''B/x86_64'', ''A/noarch'']) 0 =
     Some (0,
       (fresh_pool 0 [''A/noarch'', ''B/x86_64'', ''A/noarch''])
         \<lparr>rpool_queue := [node 0 ''A/noarch'', node 2 ''B/x86_64''],
          repolist_initialized := True\<rparr>, 4) \<and>
   (\<exists>it w0 st.
      prop_array_iterator host_ok 0 = (Inr it, w0) \<and>
      pool_loop host_ok [''A/noarch'', ''B/x86_64'', ''A/noarch'']
        \<lparr>queue = [], ntotal = 0, nmissing = 0, world = w0\<rparr> = Next st \<and>
      ntotal st = 2 \<and> nmissing st = 0 \<and> uris (queue st) = [''A/noarch'', ''B/x86_64'']) \<and>
   (\<exists>log arg' s'.
      xbps_repository_pool_foreach host_ok count_visits 0
        (fresh_pool 1 [''A/noarch'', ''B/x86_64'', ''C/noarch'']) 0 =
        Some (0, log, arg', s', 6) \<and>
      uris (map fst log) = [''A/noarch'', ''B/x86_64'', ''C/noarch'']) \<and>
   distinct (uris [node 0 ''A/noarch'', node 2 ''B/noarch''])"
proof -
  let ?A = "''A/noarch''" and ?B = "''B/x86_64''" and ?C = "''C/noarch''"
  have ok: "always_succeed host_ok"
    by (simp add: always_succeed_def host_ok_def sync_remote_repo_def)
  have elig: "check_repo_arch (un_machine host_ok) ?A" "check_repo_arch (un_machine host_ok) ?B"
    "check_repo_arch (un_machine host_ok) ?C"
    by (simp_all add: host_ok_def check_repo_arch_def)
  have ne: "?A \<noteq> ?B" "?A \<noteq> ?C" "?B \<noteq> ?C" by simp_all
  have fresh: "rpool_queue (fresh_pool 1 us) = []" "\<not> repolist_initialized (fresh_pool 1 us)"
    "repos_array (fresh_pool 1 us) = Some \<lparr>pa_refcnt = 1, pa_strings = us\<rparr>"
    "0 < pa_refcnt \<lparr>pa_refcnt = 1, pa_strings = us\<rparr>" for us
    by (simp_all add: fresh_pool_def)
  have run: "xbps_repository_pool_init host_ok (fresh_pool 1 [?A, ?B, ?A]) 0 =
     Some (0, (fresh_pool 0 [?A, ?B, ?A])
         \<lparr>rpool_queue := [node 0 ?A, node 2 ?B], repolist_initialized := True\<rparr>, 4)"
    by (simp add: pool_eval)
  note T1 = registry_is_deduplicated_and_ordered
    [OF ok fresh elig(1,2) ne(1), where us1 = "[?A, ?B, ?A]" and w = 0, THEN conjunct1]
  then have aba: "\<exists>it w0 st.
      prop_array_iterator host_ok 0 = (Inr it, w0) \<and>
      pool_loop host_ok [?A, ?B, ?A] \<lparr>queue = [], ntotal = 0, nmissing = 0, world = w0\<rparr> = Next st \<and>
      ntotal st = 2 \<and> nmissing st = 0 \<and> uris (queue st) = [?A, ?B]"
    by auto
  have run3: "xbps_repository_pool_init host_ok (fresh_pool 1 [?A, ?B, ?C]) 0 =
     Some (0, (fresh_pool 0 [?A, ?B, ?C])
         \<lparr>rpool_queue := [node 0 ?A, node 2 ?B, node 4 ?C], repolist_initialized := True\<rparr>, 6)"
    by (simp add: pool_eval)
  have cb: "keeps_queue count_visits \<and> never_stops count_visits"
    by (simp add: keeps_queue_def never_stops_def count_visits_def)
  have d: "distinct (map rp_addr [node 0 ?A, node 2 ?B, node 4 ?C])"
    by (simp add: node_def)
  from registry_is_deduplicated_and_ordered
    [OF ok fresh elig(1,2) ne(1), where us1 = "[?A, ?B, ?C]" and w = 0 and C = ?C
      and fn = count_visits and arg = 0, THEN conjunct2, THEN conjunct1]
    elig(3) ne(2,3)
  obtain s1 w1 where
    i: "xbps_repository_pool_init host_ok (fresh_pool 1 [?A, ?B, ?C]) 0 = Some (0, s1, w1)"
    and f: "distinct (map rp_addr (rpool_queue s1)) \<and> keeps_queue count_visits \<and>
        never_stops count_visits \<longrightarrow>
        (\<exists>log arg' s'.
           xbps_repository_pool_foreach host_ok count_visits 0 (fresh_pool 1 [?A, ?B, ?C]) 0 =
             Some (0, log, arg', s', w1) \<and>
           uris (map fst log) = [?A, ?B, ?C])"
    by auto
  from i run3 have "rpool_queue s1 = [node 0 ?A, node 2 ?B, node 4 ?C]" "w1 = 6"
    by simp_all
  with f cb d have abc: "\<exists>log arg' s'.
      xbps_repository_pool_foreach host_ok count_visits 0 (fresh_pool 1 [?A, ?B, ?C]) 0 =
        Some (0, log, arg', s', 6) \<and>
      uris (map fst log) = [?A, ?B, ?C]"
    by simp
  have "xbps_repository_pool_init host_corrupt_C
      (fresh_pool 1 [''A/noarch'', ''B/noarch'', ''C/noarch'']) 0 =
      Some (5, (fresh_pool 1 [''A/noarch'', ''B/noarch'', ''C/noarch''])
        \<lparr>rpool_queue := [node 0 ''A/noarch'', node 2 ''B/noarch'']\<rparr>, 6)"
    by (simp add: pool_eval)
  moreover have "distinct (uris (rpool_queue
      (fresh_pool 1 [''A/noarch'', ''B/noarch'', ''C/noarch''])))"
    by (simp add: fresh_pool_def uris_def)
  ultimately have "distinct (uris (rpool_queue
      ((fresh_pool 1 [''A/noarch'', ''B/noarch'', ''C/noarch''])
        \<lparr>rpool_queue := [node 0 ''A/noarch'', node 2 ''B/noarch'']\<rparr>)))"
    using registry_is_deduplicated_and_ordered
      [OF ok fresh elig(1,2) ne(1), where us1 = "[?A, ?B, ?A]", THEN conjunct2, THEN conjunct2]
    by blast
  then have dd: "distinct (uris [node 0 ''A/noarch'', node 2 ''B/noarch''])"
    by simp
  from ok run aba abc dd show ?thesis by blast
qed

subsection \<open>Where the pool invariant holds\<close>

text \<open>
  The pool after a release satisfies the invariant if the pool was initialized or
  satisfied it before; a build that sets the flag leaves a queue that is not empty.
  The build of C2, which breaks the invariant, stops after it registered a node.
\<close>

lemma release_pool_invariant: "pool_invariant (xbps_repository_pool_release s) \<longleftrightarrow>
    repolist_initialized s \<or> pool_invariant s"
  by (auto simp: pool_invariant_def xbps_repository_pool_release_def release_loop_empty)

lemma successful_build_pool_invariant:
  assumes "xbps_repository_pool_init env s w = Some (rv, s', w')"
    and "\<not> repolist_initialized s" and "repolist_initialized s'"
  shows "rpool_queue s' \<noteq> [] \<and> pool_invariant s'"
proof -
  from assms obtain arr where arr: "repos_array s = Some arr"
    by (auto simp: xbps_repository_pool_init_def split: option.splits)
  obtain r w0 where it: "prop_array_iterator env w = (r, w0)"
    by (cases "prop_array_iterator env w")
  let ?st0 = "\<lparr>queue = rpool_queue s, ntotal = 0, nmissing = 0, world = w0\<rparr>"
  from assms arr it obtain st where
    l: "pool_loop env (pa_strings arr) ?st0 = Next st" "ntotal st - nmissing st \<noteq> 0"
      "rpool_queue s' = queue st"
    by (auto simp: xbps_repository_pool_init_def pool_out_def xbps_repository_pool_release_def
        split: if_splits sum.splits flow.splits)
  from pool_loop_Next [OF l(1)] l(2) have "queue st \<noteq> []" by auto
  with l(3) assms(3) show ?thesis by (simp add: pool_invariant_def)
qed

end
